theory Spec2Isabelle
  imports Main "HOL-Library.Sublist" "HOL-Library.AList"
begin

section \<open>Characters and string helpers of the host language\<close>

text \<open>
  Strings are lists of characters. The characters the sources test for by value are named
  here; the others are only copied around.
\<close>

definition dquote :: char where "dquote = CHR 0x22"
definition squote :: char where "squote = CHR 0x27"
definition tabc :: char where "tabc = CHR 0x09"
definition newline :: char where "newline = CHR 0x0A"
definition escc :: char where "escc = CHR 0x1B"

text \<open>\<^verbatim>\<open>Array.prototype.join\<close>: the elements separated by \<open>sep\<close>.\<close>

fun join :: "string \<Rightarrow> string list \<Rightarrow> string" where
  "join sep [] = []"
| "join sep [x] = x"
| "join sep (x # y # ys) = x @ sep @ join sep (y # ys)"

section \<open>pipeParser.ts: the tokenizer\<close>

text \<open>
  \<^verbatim>\<open>tokenize\<close> scans the input once. \<open>tokens\<close>, \<open>current\<close> and \<open>inQuote\<close> are
  the three local variables of the source; \<open>inQuote\<close> is \<open>None\<close> for \<^verbatim>\<open>null\<close>
  and \<open>Some q\<close> while the quote \<open>q\<close> is open.
\<close>

fun tokenize_loop :: "string \<Rightarrow> string list \<Rightarrow> string \<Rightarrow> char option \<Rightarrow> string list" where
  "tokenize_loop [] tokens current inQuote =
     (if current \<noteq> [] then tokens @ [current] else tokens)"
| "tokenize_loop (ch # rest) tokens current (Some q) =
     (if ch = q then tokenize_loop rest tokens current None
      else tokenize_loop rest tokens (current @ [ch]) (Some q))"
| "tokenize_loop (ch # rest) tokens current None =
     (if ch = dquote \<or> ch = squote then tokenize_loop rest tokens current (Some ch)
      else if ch = CHR '' '' \<or> ch = tabc then
        (if current \<noteq> [] then tokenize_loop rest (tokens @ [current]) [] None
         else tokenize_loop rest tokens current None)
      else tokenize_loop rest tokens (current @ [ch]) None)"

definition tokenize :: "string \<Rightarrow> string list" where
  "tokenize input = tokenize_loop input [] [] None"

section \<open>The terminal: the shell tokenizer\<close>

text \<open>
  \<^verbatim>\<open>TerminalManager.parseCommand\<close>, the same text in every version of the terminal.
  \<open>quoteChar\<close> is a string in the source (\<^verbatim>\<open>''\<close> when no quote is open), so the test
  \<^verbatim>\<open>char === quoteChar\<close> compares the one-character string with it.
\<close>

fun parseCommand_loop :: "string \<Rightarrow> string list \<Rightarrow> string \<Rightarrow> bool \<Rightarrow> string \<Rightarrow> string list" where
  "parseCommand_loop [] parts current inQuote quoteChar =
     (if current \<noteq> [] then parts @ [current] else parts)"
| "parseCommand_loop (ch # rest) parts current inQuote quoteChar =
     (if (ch = dquote \<or> ch = squote) \<and> \<not> inQuote then
        parseCommand_loop rest parts current True [ch]
      else if [ch] = quoteChar \<and> inQuote then
        parseCommand_loop rest parts current False []
      else if ch = CHR '' '' \<and> \<not> inQuote then
        (if current \<noteq> [] then parseCommand_loop rest (parts @ [current]) [] inQuote quoteChar
         else parseCommand_loop rest parts current inQuote quoteChar)
      else parseCommand_loop rest parts (current @ [ch]) inQuote quoteChar)"

definition parseCommand :: "string \<Rightarrow> string list" where
  "parseCommand input = parseCommand_loop input [] [] False []"

section \<open>More of the host language: white space and trimming\<close>

text \<open>
  A character stands for a code unit below 256. \<open>is_js_space\<close> is the white space of
  \<^verbatim>\<open>String.prototype.trim\<close> and of the regular expression class \<^verbatim>\<open>\s\<close> in that range.
\<close>

definition is_js_space :: "char \<Rightarrow> bool" where
  "is_js_space c \<longleftrightarrow> of_char c \<in> {9, 10, 11, 12, 13, 32, 160 :: nat}"

definition trim :: "string \<Rightarrow> string" where
  "trim s = rev (dropWhile is_js_space (rev (dropWhile is_js_space s)))"

section \<open>Whitespace normalisation, as the specification words it\<close>

text \<open>
  The specification compares the tokenizer with the "normalized (collapsed-whitespace)
  input". \<open>normalize_ws ws\<close> is that normal form for the characters \<open>ws\<close> counts as
  white space, written without tokens: leading white space goes, every later run of it
  becomes one space if a word follows and nothing otherwise. Three readings of white
  space are at hand: the space alone, of which the specification's tokenizer speaks, the
  blanks (space and tab), and the white space of the host language, \<open>is_js_space\<close>.
\<close>

definition is_space :: "char \<Rightarrow> bool" where
  "is_space c \<longleftrightarrow> c = CHR '' ''"

definition is_blank :: "char \<Rightarrow> bool" where
  "is_blank c \<longleftrightarrow> c = CHR '' '' \<or> c = tabc"

fun collapse :: "(char \<Rightarrow> bool) \<Rightarrow> bool \<Rightarrow> string \<Rightarrow> string" where
  "collapse ws gap [] = []"
| "collapse ws gap (c # cs) =
     (if ws c then collapse ws True cs
      else (if gap then [CHR '' '', c] else [c]) @ collapse ws False cs)"

definition normalize_ws :: "(char \<Rightarrow> bool) \<Rightarrow> string \<Rightarrow> string" where
  "normalize_ws ws s = collapse ws False (dropWhile ws s)"

definition quote_free :: "string \<Rightarrow> bool" where
  "quote_free s \<longleftrightarrow> dquote \<notin> set s \<and> squote \<notin> set s"

section \<open>More of the host language: words, splitting, searching, numbers\<close>

text \<open>
  \<^verbatim>\<open>s.split(/\s+/)[0]\<close>: the characters before the first white space. (For a string that
  starts with white space the first piece is empty, which is what this gives too.)
\<close>

definition first_word :: "string \<Rightarrow> string" where
  "first_word s = takeWhile (\<lambda>c. \<not> is_js_space c) s"

text \<open>\<^verbatim>\<open>s.split(d)\<close> for a one-character separator: always at least one piece.\<close>

fun split_loop :: "char \<Rightarrow> string \<Rightarrow> string \<Rightarrow> string list" where
  "split_loop d [] cur = [cur]"
| "split_loop d (c # cs) cur =
     (if c = d then cur # split_loop d cs [] else split_loop d cs (cur @ [c]))"

definition split_char :: "char \<Rightarrow> string \<Rightarrow> string list" where
  "split_char d s = split_loop d s []"

text \<open>\<^verbatim>\<open>s.includes(sub)\<close> and \<^verbatim>\<open>s.startsWith(p)\<close>.\<close>

fun str_includes :: "string \<Rightarrow> string \<Rightarrow> bool" where
  "str_includes [] sub = (sub = [])"
| "str_includes (c # cs) sub = (prefix sub (c # cs) \<or> str_includes cs sub)"

definition startsWith :: "string \<Rightarrow> string \<Rightarrow> bool" where
  "startsWith s p = prefix p s"

text \<open>\<^verbatim>\<open>toLowerCase\<close> on code units below 256: the ASCII and the Latin-1 capitals.\<close>

definition lower_char :: "char \<Rightarrow> char" where
  "lower_char c =
     (let n = (of_char c :: nat)
      in if (65 \<le> n \<and> n \<le> 90) \<or> (192 \<le> n \<and> n \<le> 222 \<and> n \<noteq> 215)
         then char_of (n + 32) else c)"

definition toLowerCase :: "string \<Rightarrow> string" where
  "toLowerCase s = map lower_char s"

text \<open>
  \<^verbatim>\<open>parseInt\<close>. The result is \<open>None\<close> for \<^verbatim>\<open>NaN\<close>. Leading white space is skipped, one
  sign is read, then the longest run of digits; with no radix argument a \<^verbatim>\<open>0x\<close> prefix
  selects base 16. Values are exact integers here (the source's numbers are doubles, which
  agree with them below \<open>2^53\<close>).
\<close>

definition is_digit :: "char \<Rightarrow> bool" where
  "is_digit c \<longleftrightarrow> 48 \<le> (of_char c :: nat) \<and> (of_char c :: nat) \<le> 57"

definition hex_val :: "char \<Rightarrow> int option" where
  "hex_val c =
     (let n = (of_char c :: nat)
      in if 48 \<le> n \<and> n \<le> 57 then Some (int n - 48)
         else if 97 \<le> n \<and> n \<le> 102 then Some (int n - 87)
         else if 65 \<le> n \<and> n \<le> 70 then Some (int n - 55)
         else None)"

definition digits_value :: "int \<Rightarrow> string \<Rightarrow> int" where
  "digits_value radix ds = foldl (\<lambda>a d. radix * a + the (hex_val d)) 0 ds"

definition read_sign :: "string \<Rightarrow> int \<times> string" where
  "read_sign s =
     (case s of
        [] \<Rightarrow> (1, [])
      | c # t \<Rightarrow> if c = CHR ''-'' then (-1, t) else if c = CHR ''+'' then (1, t) else (1, s))"

definition parseInt10 :: "string \<Rightarrow> int option" where
  "parseInt10 s =
     (let (sign, body) = read_sign (dropWhile is_js_space s);
          ds = takeWhile is_digit body
      in if ds = [] then None else Some (sign * digits_value 10 ds))"

definition parseInt :: "string \<Rightarrow> int option" where
  "parseInt s =
     (let (sign, body) = read_sign (dropWhile is_js_space s)
      in if prefix ''0x'' body \<or> prefix ''0X'' body then
           (let ds = takeWhile (\<lambda>c. hex_val c \<noteq> None) (drop 2 body)
            in if ds = [] then None else Some (sign * digits_value 16 ds))
         else
           (let ds = takeWhile is_digit body
            in if ds = [] then None else Some (sign * digits_value 10 ds)))"

section \<open>pipeParser.ts: the argument grammar table\<close>

text \<open>
  An argument record (\<^verbatim>\<open>Record<string, unknown>\<close>) is an association list in insertion
  order; \<open>set_field\<close> is the assignment \<^verbatim>\<open>result.key = value\<close>, which overwrites the key in
  place or appends it. The values the table stores are strings, lists of strings,
  booleans and numbers.
\<close>

datatype jsval = JStr string | JList "string list" | JBool bool | JNum int | JNaN

type_synonym argrec = "(string \<times> jsval) list"

definition set_field :: "string \<Rightarrow> jsval \<Rightarrow> argrec \<Rightarrow> argrec" where
  "set_field k v r = AList.update k v r"

definition field :: "argrec \<Rightarrow> string \<Rightarrow> jsval option" where
  "field r k = map_of r k"

definition num_of :: "int option \<Rightarrow> jsval" where
  "num_of n = (case n of None \<Rightarrow> JNaN | Some i \<Rightarrow> JNum i)"

text \<open>The truth value the source's \<^verbatim>\<open>!x\<close> and \<^verbatim>\<open>if (x)\<close> give a field.\<close>

fun truthy :: "jsval option \<Rightarrow> bool" where
  "truthy None = False"
| "truthy (Some (JStr s)) = (s \<noteq> [])"
| "truthy (Some (JList xs)) = True"
| "truthy (Some (JBool b)) = b"
| "truthy (Some (JNum n)) = (n \<noteq> 0)"
| "truthy (Some JNaN) = False"

record PipeCommand =
  tool :: string
  args :: argrec

record ParseResult =
  isPipeCommand :: bool
  commands :: "PipeCommand list"
  error :: "string option"

fun cat_parseArgs :: "string list \<Rightarrow> argrec" where
  "cat_parseArgs [] = []"
| "cat_parseArgs [a] = [(''path'', JStr a)]"
| "cat_parseArgs as = [(''paths'', JList as)]"

text \<open>grep: the flag loop stops at the first argument that does not start with a dash.\<close>

fun grep_flags :: "string list \<Rightarrow> argrec \<Rightarrow> string list \<times> argrec" where
  "grep_flags [] r = ([], r)"
| "grep_flags (flag # rest) r =
     (if startsWith flag ''-'' then
        grep_flags rest
          (if flag = ''-i'' then set_field ''caseInsensitive'' (JBool True) r
           else if flag = ''-v'' then set_field ''invertMatch'' (JBool True) r
           else r)
      else (flag # rest, r))"

definition grep_parseArgs :: "string list \<Rightarrow> argrec" where
  "grep_parseArgs as =
     (let (rest, r) = grep_flags as []
      in case rest of
           [] \<Rightarrow> r
         | p # rest' \<Rightarrow>
             (let r' = set_field ''pattern'' (JStr p) r
              in case rest' of [] \<Rightarrow> r' | q # _ \<Rightarrow> set_field ''path'' (JStr q) r'))"

text \<open>
  sort, uniq and wc scan all their arguments; \<open>sort_step\<close>, \<open>uniq_step\<close> and
  \<open>wc_step\<close> are the bodies of the three loops.
\<close>

definition sort_step :: "string \<Rightarrow> argrec \<Rightarrow> argrec" where
  "sort_step arg r =
     (if arg = ''-r'' \<or> arg = ''--reverse'' then set_field ''reverse'' (JBool True) r
      else if arg = ''-n'' \<or> arg = ''--numeric'' then set_field ''numeric'' (JBool True) r
      else if arg = ''-u'' \<or> arg = ''--unique'' then set_field ''unique'' (JBool True) r
      else if arg = ''-f'' \<or> arg = ''--ignore-case'' then set_field ''ignoreCase'' (JBool True) r
      else if \<not> startsWith arg ''-'' then set_field ''path'' (JStr arg) r
      else r)"

fun sort_loop :: "string list \<Rightarrow> argrec \<Rightarrow> argrec" where
  "sort_loop [] r = r"
| "sort_loop (arg # rest) r = sort_loop rest (sort_step arg r)"

definition sort_parseArgs :: "string list \<Rightarrow> argrec" where
  "sort_parseArgs as = sort_loop as []"

definition uniq_step :: "string \<Rightarrow> argrec \<Rightarrow> argrec" where
  "uniq_step arg r =
     (if arg = ''-c'' \<or> arg = ''--count'' then set_field ''count'' (JBool True) r
      else if arg = ''-d'' \<or> arg = ''--repeated'' then set_field ''duplicatesOnly'' (JBool True) r
      else if arg = ''-u'' \<or> arg = ''--unique'' then set_field ''uniqueOnly'' (JBool True) r
      else if arg = ''-i'' \<or> arg = ''--ignore-case'' then set_field ''ignoreCase'' (JBool True) r
      else if \<not> startsWith arg ''-'' then set_field ''path'' (JStr arg) r
      else r)"

fun uniq_loop :: "string list \<Rightarrow> argrec \<Rightarrow> argrec" where
  "uniq_loop [] r = r"
| "uniq_loop (arg # rest) r = uniq_loop rest (uniq_step arg r)"

definition uniq_parseArgs :: "string list \<Rightarrow> argrec" where
  "uniq_parseArgs as = uniq_loop as []"

text \<open>
  head and tail share one loop text. \<open>dash_digits\<close> is the test \<^verbatim>\<open>/^-\d+$/\<close>; the value
  of \<^verbatim>\<open>-n\<close> is the next argument, \<^verbatim>\<open>'10'\<close> if that is the empty string.
\<close>

definition dash_digits :: "string \<Rightarrow> bool" where
  "dash_digits s \<longleftrightarrow>
     (case s of [] \<Rightarrow> False | c # ds \<Rightarrow> c = CHR ''-'' \<and> ds \<noteq> [] \<and> list_all is_digit ds)"

fun head_loop :: "string list \<Rightarrow> argrec \<Rightarrow> argrec" where
  "head_loop [] r = r"
| "head_loop [arg] r =
     (if dash_digits arg then set_field ''lines'' (num_of (parseInt10 (drop 1 arg))) r
      else if \<not> startsWith arg ''-'' then set_field ''path'' (JStr arg) r
      else r)"
| "head_loop (arg # nxt # rest) r =
     (if arg = ''-n'' then
        head_loop rest
          (set_field ''lines'' (num_of (parseInt10 (if nxt = [] then ''10'' else nxt))) r)
      else if dash_digits arg then
        head_loop (nxt # rest) (set_field ''lines'' (num_of (parseInt10 (drop 1 arg))) r)
      else if \<not> startsWith arg ''-'' then
        head_loop (nxt # rest) (set_field ''path'' (JStr arg) r)
      else head_loop (nxt # rest) r)"

definition head_parseArgs :: "string list \<Rightarrow> argrec" where
  "head_parseArgs as = head_loop as []"

definition tail_parseArgs :: "string list \<Rightarrow> argrec" where
  "tail_parseArgs as = head_loop as []"

text \<open>wc: the loop carries the record and the local flag \<open>hasSpecificFlags\<close>.\<close>

definition wc_step :: "string \<Rightarrow> argrec \<times> bool \<Rightarrow> argrec \<times> bool" where
  "wc_step arg st =
     (let r = fst st; hasSpecificFlags = snd st
      in if arg = ''-l'' \<or> arg = ''--lines'' then
           (set_field ''countChars'' (JBool False)
             (set_field ''countWords'' (JBool False)
               (set_field ''countLines'' (JBool True) r)),
            True)
         else if arg = ''-w'' \<or> arg = ''--words'' then
           (let r1 = set_field ''countWords'' (JBool True) r
            in if \<not> hasSpecificFlags
               then set_field ''countChars'' (JBool False) (set_field ''countLines'' (JBool False) r1)
               else r1,
            True)
         else if arg = ''-c'' \<or> arg = ''--chars'' \<or> arg = ''-m'' then
           (let r1 = set_field ''countChars'' (JBool True) r
            in if \<not> hasSpecificFlags
               then set_field ''countWords'' (JBool False) (set_field ''countLines'' (JBool False) r1)
               else r1,
            True)
         else if \<not> startsWith arg ''-'' then (set_field ''path'' (JStr arg) r, hasSpecificFlags)
         else (r, hasSpecificFlags))"

fun wc_loop :: "string list \<Rightarrow> argrec \<times> bool \<Rightarrow> argrec" where
  "wc_loop [] st = fst st"
| "wc_loop (arg # rest) st = wc_loop rest (wc_step arg st)"

definition wc_parseArgs :: "string list \<Rightarrow> argrec" where
  "wc_parseArgs as = wc_loop as ([], False)"

fun read_file_parseArgs :: "string list \<Rightarrow> argrec" where
  "read_file_parseArgs [] = []"
| "read_file_parseArgs (a # _) = [(''path'', JStr a)]"

fun write_file_parseArgs :: "string list \<Rightarrow> argrec" where
  "write_file_parseArgs [] = []"
| "write_file_parseArgs [a] = [(''path'', JStr a)]"
| "write_file_parseArgs (a # rest) = [(''path'', JStr a), (''content'', JStr (join '' '' rest))]"

text \<open>
  \<open>COMMAND_PATTERNS\<close> and \<open>COMMAND_ALIASES\<close> of pipeParser.ts, as lookups of own keys.
  The alias table is \<open>COMMAND_ALIASES_pipe\<close> here, and the module's \<open>parseCommand\<close> is
  \<open>parseCommand_pipe\<close>: the terminal has a table and a method of the same names.
\<close>

definition COMMAND_PATTERNS :: "string \<Rightarrow> (string \<times> (string list \<Rightarrow> argrec)) option" where
  "COMMAND_PATTERNS name =
     (if name = ''cat'' then Some (''cat'', cat_parseArgs)
      else if name = ''grep'' then Some (''grep'', grep_parseArgs)
      else if name = ''sort'' then Some (''sort'', sort_parseArgs)
      else if name = ''uniq'' then Some (''uniq'', uniq_parseArgs)
      else if name = ''head'' then Some (''head'', head_parseArgs)
      else if name = ''tail'' then Some (''tail'', tail_parseArgs)
      else if name = ''wc'' then Some (''wc'', wc_parseArgs)
      else if name = ''read_file'' then Some (''read_file'', read_file_parseArgs)
      else if name = ''write_file'' then Some (''write_file'', write_file_parseArgs)
      else None)"

definition COMMAND_ALIASES_pipe :: "string \<Rightarrow> string option" where
  "COMMAND_ALIASES_pipe name =
     (if name = ''less'' then Some ''cat''
      else if name = ''more'' then Some ''cat''
      else if name = ''type'' then Some ''cat''
      else if name = ''find'' then Some ''grep''
      else None)"

text \<open>
  Both tables are plain objects, so indexing them with \<^verbatim>\<open>constructor\<close> or \<^verbatim>\<open>__proto__\<close>
  finds an inherited member: a truthy value that is no table entry. These are the only
  inherited names a lower-cased word can spell.
\<close>

definition inherited_key :: "string \<Rightarrow> bool" where
  "inherited_key name \<longleftrightarrow> name = ''constructor'' \<or> name = ''__proto__''"

section \<open>pipeParser.ts: parsing one command, classifying and parsing a line\<close>

text \<open>
  \<^verbatim>\<open>parseCommand\<close> of pipeParser.ts (\<open>None\<close> is \<^verbatim>\<open>null\<close>). An inherited member found in the
  alias table replaces the name by a value that is no key of the pattern table, so the
  command is unknown.
\<close>

definition parseCommand_pipe :: "string \<Rightarrow> PipeCommand option" where
  "parseCommand_pipe commandStr =
     (case tokenize (trim commandStr) of
        [] \<Rightarrow> None
      | t # as \<Rightarrow>
          (let cmdName = toLowerCase t
           in if inherited_key cmdName then None
              else
                (let cmdName' = (case COMMAND_ALIASES_pipe cmdName of Some c \<Rightarrow> c | None \<Rightarrow> cmdName)
                 in case COMMAND_PATTERNS cmdName' of
                      None \<Rightarrow> None
                    | Some (toolName, parseArgs) \<Rightarrow>
                        Some \<lparr>tool = toolName, args = parseArgs as\<rparr>)))"

definition isKnownCommand :: "string \<Rightarrow> bool" where
  "isKnownCommand w \<longleftrightarrow>
     COMMAND_PATTERNS w \<noteq> None \<or> COMMAND_ALIASES_pipe w \<noteq> None \<or> inherited_key w"

definition isPipeCommandSyntax :: "string \<Rightarrow> bool" where
  "isPipeCommandSyntax input =
     (let trimmed = trim input
      in if \<not> str_includes trimmed ''|'' then
           (let firstWord = toLowerCase (first_word trimmed)
            in if firstWord = [] then False
               else isKnownCommand firstWord \<and> \<not> str_includes trimmed ''?''
                    \<and> \<not> str_includes trimmed ''please'')
         else
           (let segments = split_char (CHR ''|'') trimmed
            in if length segments < 2 then False
               else
                 (let firstCmd = toLowerCase (first_word (trim (hd segments)))
                  in if firstCmd = [] then False else isKnownCommand firstCmd)))"

text \<open>
  The loop over the segments: \<open>Inl\<close> the first word of the first segment that is no known
  command, \<open>Inr\<close> the commands when every segment parsed.
\<close>

fun parse_segments :: "string list \<Rightarrow> PipeCommand list \<Rightarrow> string + PipeCommand list" where
  "parse_segments [] cmds = Inr cmds"
| "parse_segments (segment # rest) cmds =
     (case parseCommand_pipe segment of
        None \<Rightarrow> Inl (first_word segment)
      | Some cmd \<Rightarrow> parse_segments rest (cmds @ [cmd]))"

definition pipe_segments :: "string \<Rightarrow> string list" where
  "pipe_segments trimmed = filter (\<lambda>s. length s > 0) (map trim (split_char (CHR ''|'') trimmed))"

definition needs_source :: "PipeCommand \<Rightarrow> bool" where
  "needs_source c \<longleftrightarrow>
     tool c \<in> set [''cat'', ''read_file'', ''grep'']
     \<and> \<not> truthy (field (args c) ''path'') \<and> \<not> truthy (field (args c) ''paths'')"

definition parsePipeCommand :: "string \<Rightarrow> ParseResult" where
  "parsePipeCommand input =
     (let trimmed = trim input
      in if \<not> isPipeCommandSyntax trimmed then
           \<lparr>isPipeCommand = False, commands = [], error = None\<rparr>
         else
           (let segments = pipe_segments trimmed
            in if length segments = 0 then
                 \<lparr>isPipeCommand = False, commands = [], error = None\<rparr>
               else
                 (case parse_segments segments [] of
                    Inl cmdName \<Rightarrow>
                      \<lparr>isPipeCommand = True, commands = [],
                       error = Some (''Unknown command: '' @ cmdName)\<rparr>
                  | Inr cmds \<Rightarrow>
                      (if length cmds > 0 \<and> needs_source (hd cmds) then
                         \<lparr>isPipeCommand = True, commands = [],
                          error = Some (''First command ('' @ tool (hd cmds)
                                        @ '') requires a file path'')\<rparr>
                       else \<lparr>isPipeCommand = True, commands = cmds, error = None\<rparr>))))"

section \<open>The terminal: splitting a line into a pipe chain\<close>

text \<open>
  \<^verbatim>\<open>TerminalManager.parsePipeChain\<close>: the quotes stay in the pieces (the shell tokenizer
  removes them later), and a bar splits only while no quote is open.
\<close>

fun parsePipeChain_loop :: "string \<Rightarrow> string list \<Rightarrow> string \<Rightarrow> bool \<Rightarrow> string \<Rightarrow> string list" where
  "parsePipeChain_loop [] cmds current inQuote quoteChar =
     (if trim current \<noteq> [] then cmds @ [trim current] else cmds)"
| "parsePipeChain_loop (ch # rest) cmds current inQuote quoteChar =
     (if (ch = dquote \<or> ch = squote) \<and> \<not> inQuote then
        parsePipeChain_loop rest cmds (current @ [ch]) True [ch]
      else if [ch] = quoteChar \<and> inQuote then
        parsePipeChain_loop rest cmds (current @ [ch]) False []
      else if ch = CHR ''|'' \<and> \<not> inQuote then
        parsePipeChain_loop rest (cmds @ [trim current]) [] inQuote quoteChar
      else parsePipeChain_loop rest cmds (current @ [ch]) inQuote quoteChar)"

definition parsePipeChain :: "string \<Rightarrow> string list" where
  "parsePipeChain input = parsePipeChain_loop input [] [] False []"

section \<open>More of the host language: slices, numbers as text, string order\<close>

text \<open>
  \<^verbatim>\<open>slice(start, end)\<close> of arrays and strings, for every pair of integers: a negative
  bound counts from the end, and both are clamped to the length. \<open>js_slice_from\<close> is the
  call with one argument.
\<close>

definition clamp_index :: "nat \<Rightarrow> int \<Rightarrow> nat" where
  "clamp_index len k = (if k < 0 then nat (max (int len + k) 0) else min (nat k) len)"

definition js_slice :: "'a list \<Rightarrow> int \<Rightarrow> int \<Rightarrow> 'a list" where
  "js_slice xs start fin =
     (let from = clamp_index (length xs) start; to = clamp_index (length xs) fin
      in take (to - from) (drop from xs))"

definition js_slice_from :: "'a list \<Rightarrow> int \<Rightarrow> 'a list" where
  "js_slice_from xs start = drop (clamp_index (length xs) start) xs"

text \<open>\<^verbatim>\<open>xs[i] || ''\<close> for an array of strings: the empty string outside the array.\<close>

definition at_or_empty :: "string list \<Rightarrow> int \<Rightarrow> string" where
  "at_or_empty xs i = (if 0 \<le> i \<and> i < int (length xs) then xs ! nat i else [])"

text \<open>A number in a template string: decimal digits, a minus sign first if negative.\<close>

fun digits_of :: "nat \<Rightarrow> string" where
  "digits_of n =
     (if n < 10 then [char_of (48 + n)]
      else digits_of (n div 10) @ [char_of (48 + n mod 10)])"

declare digits_of.simps [simp del]

definition show_int :: "int \<Rightarrow> string" where
  "show_int i = (if i < 0 then CHR ''-'' # digits_of (nat (- i)) else digits_of (nat i))"

text \<open>\<^verbatim>\<open>a <= b\<close> on strings: the order of the code units, a proper prefix first.\<close>

fun str_le :: "string \<Rightarrow> string \<Rightarrow> bool" where
  "str_le [] b = True"
| "str_le (x # a) [] = False"
| "str_le (x # a) (y # b) =
     ((of_char x :: nat) < of_char y \<or> (x = y \<and> str_le a b))"

text \<open>\<^verbatim>\<open>s.replace(/\n/g, '\r\n')\<close>.\<close>

definition crlf :: "string \<Rightarrow> string" where
  "crlf s = concat (map (\<lambda>c. if c = newline then [CHR 0x0D, newline] else [c]) s)"

section \<open>The regular expressions of the host language\<close>

text \<open>
  A compiled regular expression is taken by what it matches: \<open>m s i = Some e\<close> when it
  matches the characters of \<open>s\<close> from index \<open>i\<close> up to \<open>e\<close>, and \<open>None\<close> when it has no
  match starting at \<open>i\<close>. The constructor \<^verbatim>\<open>new RegExp(pattern, flags)\<close> is a parameter
  \<open>mk\<close> of the handlers that use it; it answers \<open>Inl\<close> the message of the syntax error it
  throws, or \<open>Inr\<close> the matcher.

  An expression with the flag \<^verbatim>\<open>g\<close> carries \<open>lastIndex\<close>. \<open>regex_exec\<close> is one call of
  \<^verbatim>\<open>exec\<close> on it: the search starts at \<open>lastIndex\<close>, a match moves \<open>lastIndex\<close> to
  its end and no match resets it to 0. \<^verbatim>\<open>test\<close> is \<^verbatim>\<open>exec\<close> with the match forgotten.
\<close>

type_synonym matcher = "string \<Rightarrow> nat \<Rightarrow> nat option"

type_synonym regexp_new = "string \<Rightarrow> string \<Rightarrow> string + matcher"

definition regex_exec :: "matcher \<Rightarrow> string \<Rightarrow> nat \<Rightarrow> (nat \<times> nat) option \<times> nat" where
  "regex_exec m s lastIndex =
     (case List.find (\<lambda>i. m s i \<noteq> None) [lastIndex ..< Suc (length s)] of
        None \<Rightarrow> (None, 0)
      | Some i \<Rightarrow> (Some (i, the (m s i)), the (m s i)))"

definition regex_test :: "matcher \<Rightarrow> string \<Rightarrow> nat \<Rightarrow> bool \<times> nat" where
  "regex_test m s lastIndex =
     (case regex_exec m s lastIndex of (r, lastIndex') \<Rightarrow> (r \<noteq> None, lastIndex'))"

text \<open>A string has a match when the expression matches from some index of it.\<close>

definition has_match :: "matcher \<Rightarrow> string \<Rightarrow> bool" where
  "has_match m s \<longleftrightarrow> (\<exists>i e. i \<le> length s \<and> m s i = Some e)"

text \<open>
  \<^verbatim>\<open>s.replace(re, f)\<close> for a global expression starts at \<open>lastIndex = 0\<close>, collects the
  matches one \<^verbatim>\<open>exec\<close> after the other (stepping over an empty match), and leaves
  \<open>lastIndex = 0\<close>. A match never ends before it starts; \<open>next_index\<close> also moves on for a
  matcher that breaks this, which keeps the collection finite.
\<close>

definition next_index :: "nat \<Rightarrow> nat \<Rightarrow> nat" where
  "next_index i e = (if e \<le> i then Suc i else e)"

function all_matches :: "matcher \<Rightarrow> string \<Rightarrow> nat \<Rightarrow> (nat \<times> nat) list" where
  "all_matches m s lastIndex =
     (case fst (regex_exec m s lastIndex) of
        None \<Rightarrow> []
      | Some (i, e) \<Rightarrow> (i, e) # all_matches m s (next_index i e))"
  by pat_completeness auto

lemma find_in_set: "List.find P xs = Some x \<Longrightarrow> x \<in> set xs \<and> P x"
  by (induction xs) (auto split: if_splits)

lemma regex_exec_bounds:
  assumes "fst (regex_exec m s li) = Some (i, e)"
  shows "li \<le> i \<and> i \<le> length s \<and> m s i = Some e"
proof -
  from assms obtain j where f: "List.find (\<lambda>i. m s i \<noteq> None) [li ..< Suc (length s)] = Some j"
    and ij: "i = j" "e = the (m s j)"
    unfolding regex_exec_def by (auto split: option.splits)
  from find_in_set [OF f] have "j \<in> set [li ..< Suc (length s)]" and "m s j \<noteq> None"
    by simp_all
  then show ?thesis using ij by (auto simp del: upt_Suc)
qed

termination all_matches
proof (relation "measure (\<lambda>(m, s, li). Suc (length s) - li)")
  show "wf (measure (\<lambda>(m, s, li). Suc (length s) - li))" by simp
next
  fix m s lastIndex x2 x y
  assume "fst (regex_exec m s lastIndex) = Some x2" and "(x, y) = x2"
  then have "fst (regex_exec m s lastIndex) = Some (x, y)" by simp
  from regex_exec_bounds [OF this]
  show "((m, s, next_index x y), m, s, lastIndex) \<in> measure (\<lambda>(m, s, li). Suc (length s) - li)"
    by (auto simp: next_index_def)
qed

declare all_matches.simps [simp del]

text \<open>The replacement of every match by \<open>f\<close> of the matched text; \<open>pos\<close> is how far the
  subject has been copied.\<close>

fun replace_matches :: "(string \<Rightarrow> string) \<Rightarrow> string \<Rightarrow> (nat \<times> nat) list \<Rightarrow> nat \<Rightarrow> string" where
  "replace_matches f s [] pos = drop pos s"
| "replace_matches f s ((i, e) # ms) pos =
     (if pos \<le> i then
        take (i - pos) (drop pos s) @ f (take (e - i) (drop i s)) @ replace_matches f s ms e
      else replace_matches f s ms pos)"

definition replace_all :: "matcher \<Rightarrow> (string \<Rightarrow> string) \<Rightarrow> string \<Rightarrow> string" where
  "replace_all m f s = replace_matches f s (all_matches m s 0) 0"

text \<open>
  For the examples: the constructor on a pattern without special characters. The expression
  matches the pattern itself, in any case when the flags contain \<^verbatim>\<open>i\<close>.
\<close>

definition literal_matcher :: "bool \<Rightarrow> string \<Rightarrow> matcher" where
  "literal_matcher ci pat s i =
     (let fold_case = (if ci then toLowerCase else id)
      in if i \<le> length s \<and> prefix (fold_case pat) (fold_case (drop i s))
         then Some (i + length pat) else None)"

definition literal_RegExp :: regexp_new where
  "literal_RegExp pattern flags = Inr (literal_matcher (CHR ''i'' \<in> set flags) pattern)"

section \<open>The file store, as the terminal and the rename see it\<close>

text \<open>
  \<^verbatim>\<open>readFile\<close>, \<^verbatim>\<open>createFile\<close> and \<^verbatim>\<open>deleteFile\<close> of \<open>OPFSFileSystem\<close> work on the
  browser's directory handles. They are taken as operations on a store of any type
  \<open>'fs\<close>: each returns the store it leaves and either the message of the error it throws
  (\<open>Inl\<close>) or its result (\<open>Inr\<close>).
\<close>

record 'fs store_ops =
  readFile :: "string \<Rightarrow> 'fs \<Rightarrow> (string + string) \<times> 'fs"
  createFile :: "string \<Rightarrow> string \<Rightarrow> 'fs \<Rightarrow> (string + unit) \<times> 'fs"
  deleteFile :: "string \<Rightarrow> 'fs \<Rightarrow> (string + unit) \<times> 'fs"

text \<open>
  \<^verbatim>\<open>OPFSFileSystem.renameFile\<close>: read, create the copy, delete the original; when that
  delete throws, delete the copy, ignore what this second delete does, and throw an error
  that quotes the first.
\<close>

definition rename_error :: "string \<Rightarrow> string \<Rightarrow> string" where
  "rename_error oldPath msg =
     ''Failed to complete rename: could not delete original file '' @ [dquote] @ oldPath
     @ [dquote] @ ''. Error: '' @ msg"

definition renameFile :: "'fs store_ops \<Rightarrow> string \<Rightarrow> string \<Rightarrow> 'fs \<Rightarrow> (string + unit) \<times> 'fs" where
  "renameFile ops oldPath newPath fs =
     (case readFile ops oldPath fs of
        (Inl e, fs1) \<Rightarrow> (Inl e, fs1)
      | (Inr content, fs1) \<Rightarrow>
          (case createFile ops newPath content fs1 of
             (Inl e, fs2) \<Rightarrow> (Inl e, fs2)
           | (Inr _, fs2) \<Rightarrow>
               (case deleteFile ops oldPath fs2 of
                  (Inr _, fs3) \<Rightarrow> (Inr (), fs3)
                | (Inl deleteError, fs3) \<Rightarrow>
                    (case deleteFile ops newPath fs3 of
                       (_, fs4) \<Rightarrow> (Inl (rename_error oldPath deleteError), fs4)))))"

text \<open>
  A small store for the examples: the files with their contents, and the paths whose
  removal the store refuses. Reading a missing file and removing a missing or a
  protected file fail and leave the store as it was.
\<close>

record simple_store =
  files :: "(string \<times> string) list"
  protected :: "string list"

definition simple_ops :: "simple_store store_ops" where
  "simple_ops =
     \<lparr>readFile = (\<lambda>p fs. case map_of (files fs) p of
                     None \<Rightarrow> (Inl ''not found'', fs) | Some c \<Rightarrow> (Inr c, fs)),
      createFile = (\<lambda>p c fs. (Inr (), fs\<lparr>files := AList.update p c (files fs)\<rparr>)),
      deleteFile = (\<lambda>p fs.
        if p \<in> set (protected fs) then (Inl ''not allowed'', fs)
        else if map_of (files fs) p = None then (Inl ''not found'', fs)
        else (Inr (), fs\<lparr>files := AList.delete p (files fs)\<rparr>))\<rparr>"

section \<open>The terminal: results, session state, paths\<close>

text \<open>
  \<open>CommandResult\<close> of the terminal. Its fields \<^verbatim>\<open>output\<close> and \<^verbatim>\<open>error\<close> are
  \<open>cmd_output\<close> and \<open>cmd_error\<close> here (\<open>error\<close> names the field of \<open>ParseResult\<close>).
\<close>

record CommandResult =
  success :: bool
  cmd_output :: string
  cmd_error :: "string option"

text \<open>
  What the terminal shows is the list of the calls made on it, oldest first. The two debug
  loggers only print; each of their calls is one event that carries what it was given.
\<close>

datatype term_event =
    Write string
  | Writeln string
  | Clear
  | DebugInput string "string list" "string option" bool
  | DebugOutput CommandResult

text \<open>
  The part of the session a command can touch, and the line editor's own fields. A
  handler answers \<open>Inl\<close> the message of an error it throws or \<open>Inr\<close> its result, and the
  shell it leaves.
\<close>

record 'fs shell =
  terminal :: "term_event list"
  currentDirectory :: string
  debugMode :: bool
  store :: 'fs

record editor =
  currentLine :: string
  cursorPosition :: int
  commandHistory :: "string list"
  historyIndex :: int

type_synonym 'fs outcome = "(string + CommandResult) \<times> 'fs shell"

type_synonym 'fs runner = "string \<Rightarrow> string list \<Rightarrow> string option \<Rightarrow> 'fs shell \<Rightarrow> 'fs outcome"

definition log_event :: "term_event \<Rightarrow> 'fs shell \<Rightarrow> 'fs shell" where
  "log_event ev sh = sh\<lparr>terminal := terminal sh @ [ev]\<rparr>"

definition term_write :: "string \<Rightarrow> 'fs shell \<Rightarrow> 'fs shell" where
  "term_write s sh = sh\<lparr>terminal := terminal sh @ [Write s]\<rparr>"

definition term_writeln :: "string \<Rightarrow> 'fs shell \<Rightarrow> 'fs shell" where
  "term_writeln s sh = sh\<lparr>terminal := terminal sh @ [Writeln s]\<rparr>"

definition prompt_text :: "string \<Rightarrow> string" where
  "prompt_text cwd =
     [escc] @ ''[1;36m'' @ (if cwd = [] then ''/'' else cwd) @ [escc] @ ''[0m ''
     @ [escc] @ ''[1;32m$'' @ [escc] @ ''[0m ''"

definition prompt :: "'fs shell \<Rightarrow> 'fs shell" where
  "prompt sh = term_write (prompt_text (currentDirectory sh)) sh"

definition error_line :: "string \<Rightarrow> string" where
  "error_line msg = [escc] @ ''[1;31mError:'' @ [escc] @ ''[0m '' @ msg"

text \<open>An optional string argument is truthy when it is there and not empty.\<close>

definition given :: "string option \<Rightarrow> bool" where
  "given a \<longleftrightarrow> (case a of None \<Rightarrow> False | Some s \<Rightarrow> s \<noteq> [])"

definition arg_at :: "string list \<Rightarrow> nat \<Rightarrow> string option" where
  "arg_at as i = (if i < length as then Some (as ! i) else None)"

definition resolvePath :: "string \<Rightarrow> string \<Rightarrow> string" where
  "resolvePath cwd path =
     (if path = [] \<or> path = ''.'' then cwd
      else if startsWith path ''/'' then drop 1 path
      else if path = ''..'' then
        join ''/'' (butlast (filter (\<lambda>p. p \<noteq> []) (split_char (CHR ''/'') cwd)))
      else
        (let path' = (if startsWith path ''./'' then drop 2 path else path)
         in if cwd \<noteq> [] then cwd @ ''/'' @ path' else path'))"

definition ok :: "string \<Rightarrow> CommandResult" where
  "ok out = \<lparr>success = True, cmd_output = out, cmd_error = None\<rparr>"

definition failed :: "string \<Rightarrow> CommandResult" where
  "failed msg = \<lparr>success = False, cmd_output = [], cmd_error = Some msg\<rparr>"

text \<open>Reading the file a handler was pointed at: the path is resolved first.\<close>

definition read_resolved :: "'fs store_ops \<Rightarrow> string \<Rightarrow> 'fs shell \<Rightarrow> (string + string) \<times> 'fs shell" where
  "read_resolved ops path sh =
     (case readFile ops (resolvePath (currentDirectory sh) path) (store sh) of
        (r, fs') \<Rightarrow> (r, sh\<lparr>store := fs'\<rparr>))"

section \<open>The terminal: the handlers of cat, head, tail, grep, uniq, mv\<close>

definition cmdCat :: "'fs store_ops \<Rightarrow> string option \<Rightarrow> string option \<Rightarrow> 'fs shell \<Rightarrow> 'fs outcome" where
  "cmdCat ops path stdin sh =
     (if stdin \<noteq> None \<and> \<not> given path then (Inr (ok (the stdin)), sh)
      else if \<not> given path then (Inr (failed ''Usage: cat <path>''), sh)
      else
        (case read_resolved ops (the path) sh of
           (Inl e, sh') \<Rightarrow> (Inl e, sh')
         | (Inr content, sh') \<Rightarrow> (Inr (ok content), sh')))"

text \<open>
  head and tail. With piped input the first argument, when it reads as a number, is the
  line count; without, it is the path. \<open>lines\<close> is the count \<open>runCommand\<close> passes.
\<close>

definition head_of :: "string \<Rightarrow> int \<Rightarrow> string" where
  "head_of content lines = join [newline] (js_slice (split_char newline content) 0 lines)"

definition tail_of :: "string \<Rightarrow> int \<Rightarrow> string" where
  "tail_of content lines = join [newline] (js_slice_from (split_char newline content) (- lines))"

definition piped_count :: "string option \<Rightarrow> int \<Rightarrow> int" where
  "piped_count path lines =
     (if given path then (case parseInt (the path) of None \<Rightarrow> lines | Some parsed \<Rightarrow> parsed)
      else lines)"

definition cmdHead :: "'fs store_ops \<Rightarrow> string option \<Rightarrow> int \<Rightarrow> string option \<Rightarrow> 'fs shell \<Rightarrow> 'fs outcome" where
  "cmdHead ops path lines stdin sh =
     (case stdin of
        Some content \<Rightarrow> (Inr (ok (head_of content (piped_count path lines))), sh)
      | None \<Rightarrow>
          if \<not> given path then (Inr (failed ''Usage: head <path> [lines]''), sh)
          else
            (case read_resolved ops (the path) sh of
               (Inl e, sh') \<Rightarrow> (Inl e, sh')
             | (Inr content, sh') \<Rightarrow> (Inr (ok (head_of content lines)), sh')))"

definition cmdTail :: "'fs store_ops \<Rightarrow> string option \<Rightarrow> int \<Rightarrow> string option \<Rightarrow> 'fs shell \<Rightarrow> 'fs outcome" where
  "cmdTail ops path lines stdin sh =
     (case stdin of
        Some content \<Rightarrow> (Inr (ok (tail_of content (piped_count path lines))), sh)
      | None \<Rightarrow>
          if \<not> given path then (Inr (failed ''Usage: tail <path> [lines]''), sh)
          else
            (case read_resolved ops (the path) sh of
               (Inl e, sh') \<Rightarrow> (Inl e, sh')
             | (Inr content, sh') \<Rightarrow> (Inr (ok (tail_of content lines)), sh')))"

text \<open>
  The count \<open>runCommand\<close> computes for head and tail:
  \<^verbatim>\<open>parseInt(args[1] || '10') || 10\<close>.
\<close>

definition lines_arg :: "string list \<Rightarrow> int" where
  "lines_arg as =
     (case parseInt (if given (arg_at as 1) then as ! 1 else ''10'') of
        None \<Rightarrow> 10
      | Some n \<Rightarrow> if n = 0 then 10 else n)"

text \<open>
  grep. \<open>filter_test\<close> is \<^verbatim>\<open>filter(x => regex.test(line of x))\<close> with the one expression
  object, whose \<open>lastIndex\<close> goes from each call of \<^verbatim>\<open>test\<close> to the next.
\<close>

fun filter_test :: "matcher \<Rightarrow> ('a \<Rightarrow> string) \<Rightarrow> 'a list \<Rightarrow> nat \<Rightarrow> 'a list" where
  "filter_test m line_of [] lastIndex = []"
| "filter_test m line_of (x # xs) lastIndex =
     (if fst (regex_test m (line_of x) lastIndex)
      then x # filter_test m line_of xs (snd (regex_test m (line_of x) lastIndex))
      else filter_test m line_of xs (snd (regex_test m (line_of x) lastIndex)))"

definition highlight :: "matcher \<Rightarrow> string \<Rightarrow> string" where
  "highlight m line =
     replace_all m (\<lambda>match. [escc] @ ''[1;31m'' @ match @ [escc] @ ''[0m'') line"

text \<open>The handler of the terminal with pipes.\<close>

definition grep_output :: "matcher \<Rightarrow> string \<Rightarrow> string" where
  "grep_output m content =
     (let matches = map (highlight m) (filter_test m id (split_char newline content) 0)
      in if length matches = 0 then [] else join [newline] matches)"

definition grep_result :: "regexp_new \<Rightarrow> string \<Rightarrow> string \<Rightarrow> 'fs shell \<Rightarrow> 'fs outcome" where
  "grep_result mk pattern content sh =
     (case mk pattern ''gi'' of
        Inl e \<Rightarrow> (Inl e, sh)
      | Inr m \<Rightarrow> (Inr (ok (grep_output m content)), sh))"

definition cmdGrep :: "'fs store_ops \<Rightarrow> regexp_new \<Rightarrow> string option \<Rightarrow> string option \<Rightarrow> string option
    \<Rightarrow> 'fs shell \<Rightarrow> 'fs outcome" where
  "cmdGrep ops mk pattern path stdin sh =
     (if \<not> given pattern then (Inr (failed ''Usage: grep <pattern> [path]''), sh)
      else
        (case stdin of
           Some content \<Rightarrow> grep_result mk (the pattern) content sh
         | None \<Rightarrow>
             if \<not> given path then (Inr (failed ''Usage: grep <pattern> <path>''), sh)
             else
               (case read_resolved ops (the path) sh of
                  (Inl e, sh') \<Rightarrow> (Inl e, sh')
                | (Inr content, sh') \<Rightarrow> grep_result mk (the pattern) content sh')))"

text \<open>
  The handler of the terminal without pipes (the earlier version of the file): every line
  goes with its number, counted from 1, and the number is printed before the line.
\<close>

definition numbered_line :: "matcher \<Rightarrow> nat \<times> string \<Rightarrow> string" where
  "numbered_line m x =
     [escc] @ ''[1;33m'' @ digits_of (fst x) @ '':'' @ [escc] @ ''[0m '' @ highlight m (snd x)"

definition grep_output_numbered :: "matcher \<Rightarrow> string \<Rightarrow> string" where
  "grep_output_numbered m content =
     (let matches = map (numbered_line m)
                      (filter_test m snd (enumerate 1 (split_char newline content)) 0)
      in if length matches = 0 then [escc] @ ''[2m(no matches)'' @ [escc] @ ''[0m''
         else join [newline] matches)"

definition cmdGrep_unpiped :: "'fs store_ops \<Rightarrow> regexp_new \<Rightarrow> string option \<Rightarrow> string option
    \<Rightarrow> 'fs shell \<Rightarrow> 'fs outcome" where
  "cmdGrep_unpiped ops mk pattern path sh =
     (if \<not> given pattern \<or> \<not> given path then (Inr (failed ''Usage: grep <pattern> <path>''), sh)
      else
        (case read_resolved ops (the path) sh of
           (Inl e, sh') \<Rightarrow> (Inl e, sh')
         | (Inr content, sh') \<Rightarrow>
             (case mk (the pattern) ''gi'' of
                Inl e \<Rightarrow> (Inl e, sh')
              | Inr m \<Rightarrow> (Inr (ok (grep_output_numbered m content)), sh'))))"

text \<open>uniq keeps a line when it is the first or differs from the line before it.\<close>

fun uniq_lines :: "string list \<Rightarrow> string list" where
  "uniq_lines [] = []"
| "uniq_lines [x] = [x]"
| "uniq_lines (x # y # ys) = (if y \<noteq> x then x # uniq_lines (y # ys) else uniq_lines (x # ys))"

definition cmdUniq :: "'fs store_ops \<Rightarrow> string option \<Rightarrow> string option \<Rightarrow> 'fs shell \<Rightarrow> 'fs outcome" where
  "cmdUniq ops path stdin sh =
     (case stdin of
        Some content \<Rightarrow> (Inr (ok (join [newline] (uniq_lines (split_char newline content)))), sh)
      | None \<Rightarrow>
          if \<not> given path then (Inr (failed ''Usage: uniq <path>''), sh)
          else
            (case read_resolved ops (the path) sh of
               (Inl e, sh') \<Rightarrow> (Inl e, sh')
             | (Inr content, sh') \<Rightarrow>
                 (Inr (ok (join [newline] (uniq_lines (split_char newline content)))), sh')))"

definition cmdMv :: "'fs store_ops \<Rightarrow> string option \<Rightarrow> string option \<Rightarrow> 'fs shell \<Rightarrow> 'fs outcome" where
  "cmdMv ops source dest sh =
     (if \<not> given source \<or> \<not> given dest then (Inr (failed ''Usage: mv <source> <dest>''), sh)
      else
        (let resolvedSource = resolvePath (currentDirectory sh) (the source);
             resolvedDest = resolvePath (currentDirectory sh) (the dest)
         in case renameFile ops resolvedSource resolvedDest (store sh) of
              (Inl e, fs') \<Rightarrow> (Inl e, sh\<lparr>store := fs'\<rparr>)
            | (Inr _, fs') \<Rightarrow>
                (Inr (ok (''Moved: '' @ resolvedSource @ '' -> '' @ resolvedDest)),
                 sh\<lparr>store := fs'\<rparr>)))"

definition cmdDebug :: "'fs shell \<Rightarrow> 'fs outcome" where
  "cmdDebug sh =
     (let on = \<not> debugMode sh
      in (Inr (ok ((if on then [escc] @ ''[1;32m'' else [escc] @ ''[1;31m'') @ ''Debug mode ''
                   @ (if on then ''enabled'' else ''disabled'') @ [escc] @ ''[0m'')),
          sh\<lparr>debugMode := on\<rparr>))"

section \<open>The terminal: dispatching a command\<close>

definition COMMAND_ALIASES :: "string \<Rightarrow> string option" where
  "COMMAND_ALIASES name =
     (if name = ''list_files'' then Some ''ls''
      else if name = ''open_file'' then Some ''cat''
      else if name = ''create_file'' then Some ''touch''
      else if name = ''delete_file'' then Some ''rm''
      else if name = ''move_file'' then Some ''mv''
      else if name = ''rename_file'' then Some ''mv''
      else if name = ''head_file'' then Some ''head''
      else if name = ''tail_file'' then Some ''tail''
      else if name = ''write_file'' then Some ''write''
      else None)"

text \<open>
  \<open>runCommand\<close>, case by case in the order of the source. The handlers that are not
  given here (listing, directories, sorting, counting, import and export and the like)
  are the parameter \<open>other\<close>, which is told the resolved command.
\<close>

definition runCommand :: "'fs store_ops \<Rightarrow> regexp_new \<Rightarrow> 'fs runner \<Rightarrow> 'fs runner" where
  "runCommand ops mk other command as stdin sh =
     (let resolvedCommand = (case COMMAND_ALIASES command of Some c \<Rightarrow> c | None \<Rightarrow> command)
      in if resolvedCommand = ''help'' then other resolvedCommand as stdin sh
         else if resolvedCommand = ''ls'' then other resolvedCommand as stdin sh
         else if resolvedCommand = ''cat'' then cmdCat ops (arg_at as 0) stdin sh
         else if resolvedCommand = ''mkdir'' then other resolvedCommand as stdin sh
         else if resolvedCommand = ''touch'' then other resolvedCommand as stdin sh
         else if resolvedCommand = ''rm'' then other resolvedCommand as stdin sh
         else if resolvedCommand = ''rmdir'' then other resolvedCommand as stdin sh
         else if resolvedCommand = ''mv'' then cmdMv ops (arg_at as 0) (arg_at as 1) sh
         else if resolvedCommand = ''cp'' then other resolvedCommand as stdin sh
         else if resolvedCommand = ''pwd'' then (Inr (ok (''/'' @ currentDirectory sh)), sh)
         else if resolvedCommand = ''cd'' then other resolvedCommand as stdin sh
         else if resolvedCommand = ''clear'' then (Inr (ok []), log_event Clear sh)
         else if resolvedCommand = ''tree'' then other resolvedCommand as stdin sh
         else if resolvedCommand = ''head'' then cmdHead ops (arg_at as 0) (lines_arg as) stdin sh
         else if resolvedCommand = ''tail'' then cmdTail ops (arg_at as 0) (lines_arg as) stdin sh
         else if resolvedCommand = ''grep'' then
           cmdGrep ops mk (arg_at as 0) (arg_at as 1) stdin sh
         else if resolvedCommand = ''wc'' then other resolvedCommand as stdin sh
         else if resolvedCommand = ''diff'' then other resolvedCommand as stdin sh
         else if resolvedCommand = ''sort'' then other resolvedCommand as stdin sh
         else if resolvedCommand = ''uniq'' then cmdUniq ops (arg_at as 0) stdin sh
         else if resolvedCommand = ''echo'' then (Inr (ok (join '' '' as)), sh)
         else if resolvedCommand = ''write'' then other resolvedCommand as stdin sh
         else if resolvedCommand = ''import'' then other resolvedCommand as stdin sh
         else if resolvedCommand = ''export'' then other resolvedCommand as stdin sh
         else if resolvedCommand = ''storage'' then other resolvedCommand as stdin sh
         else if resolvedCommand = ''reset'' then other resolvedCommand as stdin sh
         else if resolvedCommand = ''debug'' then cmdDebug sh
         else
           (Inr (failed (''Unknown command: '' @ command @ ''. Type '' @ [squote] @ ''help''
                         @ [squote] @ '' for available commands.'')),
            sh))"

section \<open>The terminal: running a pipe chain\<close>

text \<open>
  The loop of \<open>executeCommand\<close> over the stages. It ends in one of three ways: every stage
  succeeded (\<open>Completed\<close>, with the last output), a stage returned a failure (\<open>Failed\<close>), or a
  stage threw (\<open>Thrown\<close>). Beside the end and the shell, \<open>run_stages\<close> returns the calls of
  \<open>runCommand\<close> it made, in order: these are no variable of the source, they are what a
  statement about the stages speaks of.
\<close>

datatype stage_end = Completed "string option" | Failed CommandResult | Thrown string

record invocation =
  inv_command :: string
  inv_args :: "string list"
  inv_stdin :: "string option"
  inv_result :: "string + CommandResult"

definition stage_command :: "string \<Rightarrow> string" where
  "stage_command cmdInput =
     (case parseCommand cmdInput of [] \<Rightarrow> [] | p # _ \<Rightarrow> toLowerCase p)"

definition stage_args :: "string \<Rightarrow> string list" where
  "stage_args cmdInput = drop 1 (parseCommand cmdInput)"

text \<open>One stage: the debug log of the input, the call, the debug log of its result.\<close>

definition debug_logged :: "'fs shell \<Rightarrow> string \<Rightarrow> bool" where
  "debug_logged sh command \<longleftrightarrow> debugMode sh \<and> command \<noteq> ''debug''"

definition run_stage :: "'fs runner \<Rightarrow> string \<Rightarrow> nat \<Rightarrow> string option \<Rightarrow> 'fs shell
    \<Rightarrow> invocation \<times> 'fs shell" where
  "run_stage run cmdInput i stdin sh =
     (let command = stage_command cmdInput;
          as = stage_args cmdInput;
          sh1 = (if debug_logged sh command
                 then log_event (DebugInput command as stdin (i > 0)) sh else sh);
          r = fst (run command as stdin sh1);
          sh2 = snd (run command as stdin sh1);
          call = \<lparr>inv_command = command, inv_args = as, inv_stdin = stdin, inv_result = r\<rparr>
      in case r of
           Inl msg \<Rightarrow> (call, sh2)
         | Inr result \<Rightarrow>
             (call, if debug_logged sh2 command then log_event (DebugOutput result) sh2 else sh2))"

fun run_stages :: "'fs runner \<Rightarrow> string list \<Rightarrow> nat \<Rightarrow> string option \<Rightarrow> 'fs shell
    \<Rightarrow> stage_end \<times> invocation list \<times> 'fs shell" where
  "run_stages run [] i stdin sh = (Completed stdin, [], sh)"
| "run_stages run (cmdInput # rest) i stdin sh =
     (case run_stage run cmdInput i stdin sh of
        (call, sh') \<Rightarrow>
          (case inv_result call of
             Inl msg \<Rightarrow> (Thrown msg, [call], sh')
           | Inr result \<Rightarrow>
               if \<not> success result then (Failed result, [call], sh')
               else
                 (case run_stages run rest (Suc i) (Some (cmd_output result)) sh' of
                    (e, calls, sh'') \<Rightarrow> (e, call # calls, sh''))))"

text \<open>What \<open>executeCommand\<close> does with the end of the loop, before the closing prompt.\<close>

definition report :: "stage_end \<Rightarrow> 'fs shell \<Rightarrow> 'fs shell" where
  "report e sh =
     (case e of
        Failed result \<Rightarrow>
          (if given (cmd_error result) then term_writeln (error_line (the (cmd_error result))) sh
           else sh)
      | Completed stdin \<Rightarrow> (if given stdin then term_writeln (crlf (the stdin)) sh else sh)
      | Thrown msg \<Rightarrow>
          term_writeln (error_line msg)
            (if debugMode sh
             then log_event (DebugOutput \<lparr>success = False, cmd_output = [], cmd_error = Some msg\<rparr>) sh
             else sh))"

definition executeCommand :: "'fs runner \<Rightarrow> string \<Rightarrow> editor \<times> 'fs shell \<Rightarrow> editor \<times> 'fs shell" where
  "executeCommand run input st =
     (if input = [] then (fst st, prompt (snd st))
      else
        (let ed = (fst st)\<lparr>commandHistory := commandHistory (fst st) @ [input], historyIndex := - 1\<rparr>
         in case run_stages run (parsePipeChain input) 0 None (snd st) of
              (e, calls, sh) \<Rightarrow> (ed, prompt (report e sh))))"

section \<open>The terminal: the line editor\<close>

text \<open>
  \<open>handleInput\<close> takes one piece of input from the terminal at a time. \<open>executeCommand\<close> is
  asynchronous in the source and is not awaited; it touches the editor's fields only
  before its first suspension, and the events are taken one after the other, so the
  command is run to its end here before the line is reset.
\<close>

definition replaceCurrentLine :: "string \<Rightarrow> editor \<times> 'fs shell \<Rightarrow> editor \<times> 'fs shell" where
  "replaceCurrentLine newLine st =
     ((fst st)\<lparr>cursorPosition := int (length newLine), currentLine := newLine\<rparr>,
      term_write newLine (prompt (term_write ([escc] @ ''[2K'' @ [CHR 0x0D]) (snd st))))"

definition key_enter :: string where "key_enter = [CHR 0x0D]"
definition key_backspace :: string where "key_backspace = [CHR 0x7F]"
definition key_up :: string where "key_up = [escc] @ ''[A''"
definition key_down :: string where "key_down = [escc] @ ''[B''"
definition key_right :: string where "key_right = [escc] @ ''[C''"
definition key_left :: string where "key_left = [escc] @ ''[D''"
definition key_ctrl_a :: string where "key_ctrl_a = [CHR 0x01]"
definition key_ctrl_e :: string where "key_ctrl_e = [CHR 0x05]"
definition key_ctrl_c :: string where "key_ctrl_c = [CHR 0x03]"
definition key_ctrl_l :: string where "key_ctrl_l = [CHR 0x0C]"

definition history_entry :: "editor \<Rightarrow> string" where
  "history_entry ed =
     at_or_empty (commandHistory ed) (int (length (commandHistory ed)) - 1 - historyIndex ed)"

definition handleInput :: "'fs runner \<Rightarrow> string \<Rightarrow> editor \<times> 'fs shell \<Rightarrow> editor \<times> 'fs shell" where
  "handleInput run data st =
     (let ed = fst st; sh = snd st; line = currentLine ed; cur = cursorPosition ed
      in if data = key_enter then
           (case executeCommand run (trim line) (ed, term_writeln [] sh) of
              (ed', sh') \<Rightarrow> (ed'\<lparr>currentLine := [], cursorPosition := 0\<rparr>, sh'))
         else if data = key_backspace then
           (if cur > 0 then
              (let before = js_slice line 0 (cur - 1); after = js_slice_from line cur
               in (ed\<lparr>currentLine := before @ after, cursorPosition := cur - 1\<rparr>,
                   term_write ([CHR 0x08] @ after @ '' '' @ [escc] @ ''[''
                               @ show_int (int (length after) + 1) @ ''D'') sh))
            else st)
         else if data = key_up then
           (if historyIndex ed < int (length (commandHistory ed)) - 1 then
              (let ed' = ed\<lparr>historyIndex := historyIndex ed + 1\<rparr>
               in replaceCurrentLine (history_entry ed') (ed', sh))
            else st)
         else if data = key_down then
           (if historyIndex ed > 0 then
              (let ed' = ed\<lparr>historyIndex := historyIndex ed - 1\<rparr>
               in replaceCurrentLine (history_entry ed') (ed', sh))
            else if historyIndex ed = 0 then
              replaceCurrentLine [] (ed\<lparr>historyIndex := - 1\<rparr>, sh)
            else st)
         else if data = key_right then
           (if cur < int (length line) then
              (ed\<lparr>cursorPosition := cur + 1\<rparr>, term_write ([escc] @ ''[C'') sh)
            else st)
         else if data = key_left then
           (if cur > 0 then (ed\<lparr>cursorPosition := cur - 1\<rparr>, term_write ([escc] @ ''[D'') sh)
            else st)
         else if data = key_ctrl_a then
           (if cur > 0 then
              (ed\<lparr>cursorPosition := 0\<rparr>, term_write ([escc] @ ''['' @ show_int cur @ ''D'') sh)
            else st)
         else if data = key_ctrl_e then
           (if cur < int (length line) then
              (ed\<lparr>cursorPosition := int (length line)\<rparr>,
               term_write ([escc] @ ''['' @ show_int (int (length line) - cur) @ ''C'') sh)
            else st)
         else if data = key_ctrl_c then
           (ed\<lparr>currentLine := [], cursorPosition := 0\<rparr>, prompt (term_writeln ''^C'' sh))
         else if data = key_ctrl_l then (ed, prompt (log_event Clear sh))
         else if str_le '' '' data \<and> str_le data ''~'' then
           (let before = js_slice line 0 cur; after = js_slice_from line cur;
                sh1 = term_write (data @ after) sh
            in (ed\<lparr>currentLine := before @ data @ after, cursorPosition := cur + 1\<rparr>,
                if length after > 0
                then term_write ([escc] @ ''['' @ show_int (int (length after)) @ ''D'') sh1
                else sh1))
         else st)"

definition initial_editor :: editor where
  "initial_editor = \<lparr>currentLine = [], cursorPosition = 0, commandHistory = [], historyIndex = - 1\<rparr>"

definition cursor_in_line :: "editor \<Rightarrow> bool" where
  "cursor_in_line ed \<longleftrightarrow> 0 \<le> cursorPosition ed \<and> cursorPosition ed \<le> int (length (currentLine ed))"

section \<open>A session for the examples\<close>

text \<open>
  A shell over the small store, with one file of three lines, \<^verbatim>\<open>ab\<close>, \<^verbatim>\<open>ab\<close> and
  \<^verbatim>\<open>xB\<close>, and one file whose removal the store refuses. The handlers left to a
  parameter answer with a failure.
\<close>

definition demo_shell :: "simple_store shell" where
  "demo_shell =
     \<lparr>terminal = [], currentDirectory = [], debugMode = False,
      store = \<lparr>files = [(''f.txt'', ''ab'' @ [newline] @ ''ab'' @ [newline] @ ''xB''),
                        (''keep.txt'', ''k'')],
               protected = [''keep.txt'']\<rparr>\<rparr>"

definition demo_other :: "simple_store runner" where
  "demo_other command as stdin sh = (Inr (failed ''not available''), sh)"

definition demo_run :: "simple_store runner" where
  "demo_run = runCommand simple_ops literal_RegExp demo_other"

section \<open>Properties of the tokenizers\<close>

lemma tokenize_loop_acc:
  "tokenize_loop cs (ts @ us) cur q = ts @ tokenize_loop cs us cur q"
  by (induction cs us cur q rule: tokenize_loop.induct) auto

lemma tokenize_loop_cons:
  "tokenize_loop cs [t] cur q = t # tokenize_loop cs [] cur q"
  using tokenize_loop_acc [of cs "[t]" "[]" cur q] by simp

lemma tokenize_loop_nonempty:
  "cur \<noteq> [] \<Longrightarrow> tokenize_loop cs [] cur q \<noteq> []"
proof (induction cs arbitrary: cur q)
  case Nil
  then show ?case by simp
next
  case (Cons c cs)
  then show ?case by (cases q) (simp_all add: tokenize_loop_cons)
qed

lemma join_cons: "join sep (x # xs) = (if xs = [] then x else x @ sep @ join sep xs)"
  by (cases xs) simp_all

lemma words_after_word:
  "quote_free cs \<Longrightarrow> cur \<noteq> [] \<Longrightarrow>
     join '' '' (tokenize_loop cs [] cur None) = cur @ collapse is_blank False cs"
  and words_after_gap:
  "quote_free cs \<Longrightarrow>
     collapse is_blank True cs =
       (if tokenize_loop cs [] [] None = [] then []
        else CHR '' '' # join '' '' (tokenize_loop cs [] [] None))"
proof (induction cs arbitrary: cur)
  case Nil
  { case 1 then show ?case by simp }
  { case 2 then show ?case by simp }
next
  case (Cons c cs)
  { case 1
    have qf: "quote_free cs" and nq: "c \<noteq> dquote" "c \<noteq> squote"
      using 1 by (auto simp: quote_free_def)
    show ?case
    proof (cases "is_blank c")
      case True
      then have b: "c = CHR '' '' \<or> c = tabc" by (simp add: is_blank_def)
      have "tokenize_loop (c # cs) [] cur None = cur # tokenize_loop cs [] [] None"
        using b nq 1(2) by (auto simp: tokenize_loop_cons)
      then show ?thesis
        using True Cons.IH(2) [OF qf] by (simp add: join_cons)
    next
      case False
      then have b: "c \<noteq> CHR '' ''" "c \<noteq> tabc" by (simp_all add: is_blank_def)
      have "tokenize_loop (c # cs) [] cur None = tokenize_loop cs [] (cur @ [c]) None"
        using b nq by simp
      then show ?thesis
        using False Cons.IH(1) [OF qf, of "cur @ [c]"] by simp
    qed }
  { case 2
    have qf: "quote_free cs" and nq: "c \<noteq> dquote" "c \<noteq> squote"
      using 2 by (auto simp: quote_free_def)
    show ?case
    proof (cases "is_blank c")
      case True
      then have b: "c = CHR '' '' \<or> c = tabc" by (simp add: is_blank_def)
      have "tokenize_loop (c # cs) [] [] None = tokenize_loop cs [] [] None"
        using b nq by auto
      then show ?thesis
        using True Cons.IH(2) [OF qf] by simp
    next
      case False
      then have b: "c \<noteq> CHR '' ''" "c \<noteq> tabc" by (simp_all add: is_blank_def)
      have e: "tokenize_loop (c # cs) [] [] None = tokenize_loop cs [] [c] None"
        using b nq by simp
      have ne: "tokenize_loop cs [] [c] None \<noteq> []"
        by (rule tokenize_loop_nonempty) simp
      show ?thesis
        using False e ne Cons.IH(1) [OF qf, of "[c]"] by simp
    qed }
qed

lemma words_from_start:
  "quote_free cs \<Longrightarrow>
     join '' '' (tokenize_loop cs [] [] None) = collapse is_blank False (dropWhile is_blank cs)"
proof (induction cs)
  case Nil
  then show ?case by simp
next
  case (Cons c cs)
  have qf: "quote_free cs" and nq: "c \<noteq> dquote" "c \<noteq> squote"
    using Cons.prems by (auto simp: quote_free_def)
  show ?case
  proof (cases "is_blank c")
    case True
    then have b: "c = CHR '' '' \<or> c = tabc" by (simp add: is_blank_def)
    have "tokenize_loop (c # cs) [] [] None = tokenize_loop cs [] [] None"
      using b nq by auto
    then show ?thesis using True Cons.IH [OF qf] by simp
  next
    case False
    then have b: "c \<noteq> CHR '' ''" "c \<noteq> tabc" by (simp_all add: is_blank_def)
    have "tokenize_loop (c # cs) [] [] None = tokenize_loop cs [] [c] None"
      using b nq by simp
    then show ?thesis
      using False words_after_word [OF qf, of "[c]"] by simp
  qed
qed

lemma tokenize_loop_no_empty:
  "[] \<notin> set tokens \<Longrightarrow> [] \<notin> set (tokenize_loop cs tokens cur q)"
  by (induction cs tokens cur q rule: tokenize_loop.induct) auto

lemma parseCommand_loop_no_empty:
  "[] \<notin> set parts \<Longrightarrow> [] \<notin> set (parseCommand_loop cs parts cur q qc)"
  by (induction cs parts cur q qc rule: parseCommand_loop.induct) auto

lemma collapse_cong:
  "\<forall>c \<in> set s. ws c = ws' c \<Longrightarrow> collapse ws gap s = collapse ws' gap s"
  by (induction s arbitrary: gap) simp_all

lemma normalize_ws_cong:
  assumes "\<forall>c \<in> set s. ws c = ws' c"
  shows "normalize_ws ws s = normalize_ws ws' s"
proof -
  have d: "dropWhile ws s = dropWhile ws' s"
    using assms by (induction s) simp_all
  have "\<forall>c \<in> set (dropWhile ws' s). ws c = ws' c"
    using assms set_dropWhileD by fastforce
  then show ?thesis
    by (simp add: normalize_ws_def d collapse_cong)
qed

text \<open>
  Claim C8, as stated: for an input without quotes, the tokens joined by one space are the
  whitespace-collapsed input. The tokenizer separates at a space and at a tab and nowhere
  else. A newline is white space and stays inside the token, so the claim fails for the
  white space of the host language; a tab separates, so it fails as well when only the
  space counts, as in the specification's description of the tokenizer.
\<close>

theorem tokenize_rejoin_whitespace_counterexample:
  "quote_free (''a'' @ [newline] @ ''b'')
   \<and> join '' '' (tokenize (''a'' @ [newline] @ ''b'')) = ''a'' @ [newline] @ ''b''
   \<and> normalize_ws is_js_space (''a'' @ [newline] @ ''b'') = ''a b''
   \<and> quote_free (''a'' @ [tabc] @ ''b'')
   \<and> join '' '' (tokenize (''a'' @ [tabc] @ ''b'')) = ''a b''
   \<and> normalize_ws is_space (''a'' @ [tabc] @ ''b'') = ''a'' @ [tabc] @ ''b''"
  by code_simp

text \<open>
  Claim C8, amended. For every input without a quote character, tokenizing with the
  pipeline tokenizer and joining the tokens with one space gives the input with its
  blanks collapsed, a blank being a space or a tab: no empty token comes out of
  consecutive blanks, and the empty input has no token. When the input has no other
  white space than blanks, this is the collapsed form for the white space of the host
  language too.
\<close>

theorem tokenize_rejoin_normalizes:
  assumes "quote_free s"
  shows "join '' '' (tokenize s) = normalize_ws is_blank s
       \<and> ((\<forall>c \<in> set s. is_js_space c \<longrightarrow> is_blank c) \<longrightarrow>
            join '' '' (tokenize s) = normalize_ws is_js_space s)"
proof -
  have a: "join '' '' (tokenize s) = normalize_ws is_blank s"
    using assms by (simp add: tokenize_def normalize_ws_def words_from_start)
  have "\<forall>c. is_blank c \<longrightarrow> is_js_space c"
    by (auto simp: is_blank_def is_js_space_def tabc_def)
  then have "(\<forall>c \<in> set s. is_js_space c \<longrightarrow> is_blank c) \<longrightarrow>
      normalize_ws is_blank s = normalize_ws is_js_space s"
    using normalize_ws_cong [of s is_blank is_js_space] by blast
  then show ?thesis using a by simp
qed

theorem tokenize_rejoin_normalizes_witness:
  "quote_free (''  cat   a.txt'' @ [tabc] @ ''b.txt '')
   \<and> join '' '' (tokenize (''  cat   a.txt'' @ [tabc] @ ''b.txt '')) = ''cat a.txt b.txt''
   \<and> normalize_ws is_js_space (''  cat   a.txt'' @ [tabc] @ ''b.txt '') = ''cat a.txt b.txt''
   \<and> tokenize [] = []"
proof -
  let ?s = "''  cat   a.txt'' @ [tabc] @ ''b.txt ''"
  have h: "quote_free ?s" by code_simp
  have w: "\<forall>c \<in> set ?s. is_js_space c \<longrightarrow> is_blank c" by code_simp
  have n: "normalize_ws is_blank ?s = ''cat a.txt b.txt''" by code_simp
  have e: "tokenize [] = []" by (simp add: tokenize_def)
  have t: "join '' '' (tokenize ?s) = normalize_ws is_blank ?s
      \<and> join '' '' (tokenize ?s) = normalize_ws is_js_space ?s"
    using tokenize_rejoin_normalizes [OF h] w by blast
  then have j: "join '' '' (tokenize ?s) = ''cat a.txt b.txt''"
    and k: "normalize_ws is_js_space ?s = ''cat a.txt b.txt''"
    using n by metis+
  show ?thesis
    using h j k e by blast
qed

text \<open>
  Claim C9, as stated: the shell tokenizer turns the input of two double quotes into one
  empty token. It does not: the token is pushed only when \<open>current\<close> is non-empty, at
  a separator and at the end of the input alike.
\<close>

theorem shell_tokenizer_empty_quotes_counterexample:
  "parseCommand [dquote, dquote] \<noteq> [[]]"
  by (simp add: parseCommand_def)

text \<open>
  Claim C9, amended: on the input of two double quotes both tokenizers return no token at
  all, and neither of them ever returns an empty token, whatever the input.
\<close>

theorem empty_quoted_token_dropped_by_both:
  "parseCommand [dquote, dquote] = [] \<and> tokenize [dquote, dquote] = [] \<and>
   [] \<notin> set (parseCommand s) \<and> [] \<notin> set (tokenize s)"
  by (simp add: parseCommand_def tokenize_def tokenize_loop_no_empty parseCommand_loop_no_empty)

section \<open>Properties of the pipeline parser\<close>

lemma str_includes_prefix: "prefix sub s \<Longrightarrow> str_includes s sub"
  by (cases s) simp_all

lemma str_includes_append: "str_includes (a @ sub @ b) sub"
proof (induction a)
  case Nil
  show ?case by (rule str_includes_prefix) simp
next
  case (Cons x a)
  then show ?case by simp
qed

text \<open>
  Claim C4 says that only the first count-selection flag of wc clears the other two
  fields. The branch for the lines flag clears them on every occurrence: after
  \<^verbatim>\<open>-w -l\<close> the words field, set by the first flag, is false again. The branches for the
  words and the characters flag are guarded, so \<^verbatim>\<open>-l -w\<close> keeps the lines field.
\<close>

theorem wc_lines_flag_reclears:
  "wc_parseArgs [''-w'', ''-l''] =
     [(''countWords'', JBool False), (''countLines'', JBool True), (''countChars'', JBool False)]
   \<and> wc_parseArgs [''-l'', ''-w''] =
     [(''countLines'', JBool True), (''countWords'', JBool True), (''countChars'', JBool False)]"
  by code_simp

text \<open>
  Claim C1 says that a bar inside quotes starts no new stage, in \<open>parsePipeCommand\<close> as in
  \<open>parsePipeChain\<close>. \<open>parsePipeCommand\<close> splits the line at every bar before any quote
  is looked at: the line \<^verbatim>\<open>grep "a|b" log.txt\<close> falls into two segments and the second
  one is reported as an unknown command. \<open>parsePipeChain\<close> keeps the same line whole.
\<close>

theorem parsePipeCommand_splits_quoted_bar:
  "pipe_segments (''grep '' @ [dquote] @ ''a|b'' @ [dquote] @ '' log.txt'') =
     [''grep '' @ [dquote] @ ''a'', ''b'' @ [dquote] @ '' log.txt'']
   \<and> parsePipeCommand (''grep '' @ [dquote] @ ''a|b'' @ [dquote] @ '' log.txt'') =
     \<lparr>isPipeCommand = True, commands = [],
      error = Some (''Unknown command: b'' @ [dquote])\<rparr>
   \<and> parsePipeChain (''grep '' @ [dquote] @ ''a|b'' @ [dquote] @ '' log.txt'') =
     [''grep '' @ [dquote] @ ''a|b'' @ [dquote] @ '' log.txt'']"
  by code_simp

text \<open>
  Claim C3, as stated: whenever the first parsed stage is a cat, read_file or grep with
  neither a path nor a list of paths, the answer is the "requires a file path" error.
  The source of the first stage is checked only after every segment has parsed: in the
  line \<^verbatim>\<open>cat | foo\<close> the first stage is a cat without a path, and the answer is the
  error for the unknown command of the second segment.
\<close>

theorem first_stage_check_after_unknown_counterexample:
  "parseCommand_pipe ''cat'' = Some \<lparr>tool = ''cat'', args = []\<rparr>
   \<and> parsePipeCommand ''cat | foo'' =
       \<lparr>isPipeCommand = True, commands = [], error = Some ''Unknown command: foo''\<rparr>
   \<and> \<not> str_includes ''Unknown command: foo'' ''requires a file path''"
  by code_simp

text \<open>
  Claim C3, amended. Let a line be classified as a pipeline and let all its segments
  parse. If the tool of the first stage is cat, read_file or grep and its argument record
  has neither a path nor a list of paths, then \<open>parsePipeCommand\<close> answers with the
  pipeline flag set, no commands, and the error "First command (tool) requires a file
  path". The check is part of parsing. The line \<^verbatim>\<open>cat | grep pattern\<close> is such a
  line.
\<close>

theorem first_stage_requires_source:
  assumes "isPipeCommandSyntax (trim input)"
    and "parse_segments (pipe_segments (trim input)) [] = Inr (c # cs)"
    and "tool c \<in> {''cat'', ''read_file'', ''grep''}"
    and "field (args c) ''path'' = None" and "field (args c) ''paths'' = None"
  shows "parsePipeCommand input =
           \<lparr>isPipeCommand = True, commands = [],
            error = Some (''First command ('' @ tool c @ '') requires a file path'')\<rparr>
         \<and> str_includes (''First command ('' @ tool c @ '') requires a file path'')
               ''requires a file path''"
proof -
  have ne: "pipe_segments (trim input) \<noteq> []"
    using assms(2) by (cases "pipe_segments (trim input)") auto
  have ns: "needs_source c"
    using assms(3,4,5) by (auto simp: needs_source_def)
  have inc: "str_includes ((''First command ('' @ tool c @ '') '') @ ''requires a file path'' @ [])
               ''requires a file path''"
    by (rule str_includes_append)
  show ?thesis
    using assms(1,2) ne ns inc by (simp add: parsePipeCommand_def Let_def)
qed

theorem first_stage_requires_source_witness:
  "isPipeCommandSyntax (trim ''cat | grep pattern'')
   \<and> parse_segments (pipe_segments (trim ''cat | grep pattern'')) [] =
       Inr [\<lparr>tool = ''cat'', args = []\<rparr>,
            \<lparr>tool = ''grep'', args = [(''pattern'', JStr ''pattern'')]\<rparr>]
   \<and> parsePipeCommand ''cat | grep pattern'' =
       \<lparr>isPipeCommand = True, commands = [],
        error = Some ''First command (cat) requires a file path''\<rparr>
   \<and> str_includes ''First command (cat) requires a file path'' ''requires a file path''"
proof -
  have h1: "isPipeCommandSyntax (trim ''cat | grep pattern'')" by code_simp
  have h2: "parse_segments (pipe_segments (trim ''cat | grep pattern'')) [] =
       Inr (\<lparr>tool = ''cat'', args = []\<rparr> #
            [\<lparr>tool = ''grep'', args = [(''pattern'', JStr ''pattern'')]\<rparr>])" by code_simp
  show ?thesis
    using h1 h2 first_stage_requires_source [OF h1 h2] by (simp add: field_def)
qed


section \<open>Properties of the rename\<close>

lemma simple_rename_refused:
  assumes "map_of (files st) src = Some body" and "src \<in> set (protected st)"
  shows "fst (renameFile simple_ops src dst st) = Inl (rename_error src ''not allowed'')
       \<and> map_of (files (snd (renameFile simple_ops src dst st))) src = Some body
       \<and> (dst \<notin> set (protected st) \<longrightarrow>
            map_of (files (snd (renameFile simple_ops src dst st))) dst = None)
       \<and> (dst \<in> set (protected st) \<longrightarrow>
            map_of (files (snd (renameFile simple_ops src dst st))) dst = Some body)"
proof (cases "dst \<in> set (protected st)")
  case True
  then show ?thesis
    using assms
    by (auto simp: renameFile_def simple_ops_def update_conv' split: prod.splits)
next
  case False
  then have "src \<noteq> dst" using assms(2) by auto
  then show ?thesis
    using assms False
    by (auto simp: renameFile_def simple_ops_def update_conv' delete_conv' split: prod.splits)
qed

text \<open>
  Claim C7, as stated: when the copy succeeds and the delete of the original fails, the
  destination is rolled back and the source still exists. The rollback is one attempt to
  delete the destination, and its failure is ignored: in a store that refuses to remove
  \<^verbatim>\<open>a.txt\<close> and \<^verbatim>\<open>b.txt\<close>, moving the first to the second leaves both files. And
  the rollback deletes, it does not restore: a \<^verbatim>\<open>b.txt\<close> that existed before the move
  is gone after it.
\<close>

theorem renameFile_rollback_counterexample:
  "renameFile simple_ops ''a.txt'' ''b.txt''
       \<lparr>files = [(''a.txt'', ''x'')], protected = [''a.txt'', ''b.txt'']\<rparr> =
     (Inl (rename_error ''a.txt'' ''not allowed''),
      \<lparr>files = [(''a.txt'', ''x''), (''b.txt'', ''x'')], protected = [''a.txt'', ''b.txt'']\<rparr>)
   \<and> renameFile simple_ops ''a.txt'' ''b.txt''
       \<lparr>files = [(''a.txt'', ''x''), (''b.txt'', ''old'')], protected = [''a.txt'']\<rparr> =
     (Inl (rename_error ''a.txt'' ''not allowed''),
      \<lparr>files = [(''a.txt'', ''x'')], protected = [''a.txt'']\<rparr>)"
  by code_simp

text \<open>
  Claim C7, amended. Take a rename whose read and copy succeed and whose delete of the
  original fails with message \<open>msg\<close>. Then \<open>renameFile\<close> tries to delete the destination,
  takes the store as that attempt leaves it whether or not it succeeded, and throws an
  error whose message contains \<open>msg\<close>. In the small store, where a refused operation
  changes nothing, this means for an original the store refuses to remove: the original
  keeps its content; the destination is absent afterwards when the store lets it be
  removed, also if it existed before, and holds the copy when the store refuses.
\<close>

theorem renameFile_rolls_back:
  assumes "readFile ops oldPath fs = (Inr content, fs1)"
    and "createFile ops newPath content fs1 = (Inr (), fs2)"
    and "deleteFile ops oldPath fs2 = (Inl msg, fs3)"
  shows "renameFile ops oldPath newPath fs =
           (Inl (rename_error oldPath msg), snd (deleteFile ops newPath fs3))
         \<and> str_includes (rename_error oldPath msg) msg
         \<and> (map_of (files st) src = Some body \<longrightarrow> src \<in> set (protected st) \<longrightarrow>
              fst (renameFile simple_ops src dst st) = Inl (rename_error src ''not allowed'')
              \<and> map_of (files (snd (renameFile simple_ops src dst st))) src = Some body
              \<and> (dst \<notin> set (protected st) \<longrightarrow>
                   map_of (files (snd (renameFile simple_ops src dst st))) dst = None)
              \<and> (dst \<in> set (protected st) \<longrightarrow>
                   map_of (files (snd (renameFile simple_ops src dst st))) dst = Some body))"
proof -
  have "str_includes ((''Failed to complete rename: could not delete original file '' @ [dquote]
          @ oldPath @ [dquote] @ ''. Error: '') @ msg @ []) msg"
    by (rule str_includes_append)
  then have i: "str_includes (rename_error oldPath msg) msg"
    by (simp add: rename_error_def)
  have r: "renameFile ops oldPath newPath fs =
           (Inl (rename_error oldPath msg), snd (deleteFile ops newPath fs3))"
    using assms by (simp add: renameFile_def split: prod.splits)
  show ?thesis
    using i r simple_rename_refused [of st src body dst] by blast
qed

theorem renameFile_rolls_back_witness:
  "readFile simple_ops ''keep.txt'' (store demo_shell) = (Inr ''k'', store demo_shell)
   \<and> createFile simple_ops ''new.txt'' ''k'' (store demo_shell) =
       (Inr (), (store demo_shell)\<lparr>files := files (store demo_shell) @ [(''new.txt'', ''k'')]\<rparr>)
   \<and> deleteFile simple_ops ''keep.txt''
         ((store demo_shell)\<lparr>files := files (store demo_shell) @ [(''new.txt'', ''k'')]\<rparr>) =
       (Inl ''not allowed'',
        (store demo_shell)\<lparr>files := files (store demo_shell) @ [(''new.txt'', ''k'')]\<rparr>)
   \<and> renameFile simple_ops ''keep.txt'' ''new.txt'' (store demo_shell) =
       (Inl (rename_error ''keep.txt'' ''not allowed''), store demo_shell)
   \<and> map_of (files (store demo_shell)) ''new.txt'' = None
   \<and> map_of (files (store demo_shell)) ''keep.txt'' = Some ''k''"
proof -
  let ?fs = "store demo_shell"
  let ?fs2 = "?fs\<lparr>files := files ?fs @ [(''new.txt'', ''k'')]\<rparr>"
  have h1: "readFile simple_ops ''keep.txt'' ?fs = (Inr ''k'', ?fs)"
    by (simp add: simple_ops_def demo_shell_def)
  have h2: "createFile simple_ops ''new.txt'' ''k'' ?fs = (Inr (), ?fs2)"
    by (simp add: simple_ops_def demo_shell_def)
  have h3: "deleteFile simple_ops ''keep.txt'' ?fs2 = (Inl ''not allowed'', ?fs2)"
    by (simp add: simple_ops_def demo_shell_def)
  have h4: "snd (deleteFile simple_ops ''new.txt'' ?fs2) = ?fs"
    by (simp add: simple_ops_def demo_shell_def)
  show ?thesis
    using h1 h2 h3 h4
      renameFile_rolls_back [where st = ?fs and src = "''keep.txt''" and dst = "''new.txt''"
        and body = "''k''", OF h1 h2 h3]
    by (simp add: demo_shell_def)
qed

section \<open>Properties of the line editor\<close>

lemma length_js_slice_0:
  "0 \<le> k \<Longrightarrow> length (js_slice xs 0 k) = min (nat k) (length xs)"
  by (simp add: js_slice_def clamp_index_def Let_def)

lemma length_js_slice_from:
  "0 \<le> k \<Longrightarrow> length (js_slice_from xs k) = length xs - nat k"
  by (simp add: js_slice_from_def clamp_index_def)

lemma executeCommand_keeps_line:
  "currentLine (fst (executeCommand run input st)) = currentLine (fst st)
   \<and> cursorPosition (fst (executeCommand run input st)) = cursorPosition (fst st)"
  by (simp add: executeCommand_def Let_def split: prod.splits)

lemma str_le_nonempty: "str_le '' '' data \<Longrightarrow> Suc 0 \<le> length data"
  by (cases data) simp_all

lemma replaceCurrentLine_cursor: "cursor_in_line (fst (replaceCurrentLine newLine st))"
  by (simp add: replaceCurrentLine_def cursor_in_line_def)

lemmas key_defs = key_enter_def key_backspace_def key_up_def key_down_def key_right_def
  key_left_def key_ctrl_a_def key_ctrl_e_def key_ctrl_c_def key_ctrl_l_def escc_def

lemma handleInput_cursor:
  assumes "cursor_in_line (fst st)"
  shows "cursor_in_line (fst (handleInput run data st))"
proof -
  let ?ed = "fst st"
  have c: "0 \<le> cursorPosition ?ed" "cursorPosition ?ed \<le> int (length (currentLine ?ed))"
    using assms by (simp_all add: cursor_in_line_def)
  consider (enter) "data = key_enter"
    | (backspace) "data \<noteq> key_enter" "data = key_backspace"
    | (up) "data \<noteq> key_enter" "data \<noteq> key_backspace" "data = key_up"
    | (down) "data \<noteq> key_enter" "data \<noteq> key_backspace" "data \<noteq> key_up" "data = key_down"
    | (rest) "data \<noteq> key_enter" "data \<noteq> key_backspace" "data \<noteq> key_up" "data \<noteq> key_down"
    by blast
  then show ?thesis
  proof cases
    case enter
    then show ?thesis
      by (simp add: handleInput_def Let_def cursor_in_line_def split: prod.splits)
  next
    case backspace
    then show ?thesis
      using c assms
      by (auto simp: handleInput_def Let_def cursor_in_line_def length_js_slice_0
          length_js_slice_from)
  next
    case up
    then show ?thesis
      using assms by (simp add: handleInput_def Let_def replaceCurrentLine_cursor)
  next
    case down
    then show ?thesis
      using assms by (simp add: handleInput_def Let_def replaceCurrentLine_cursor)
  next
    case rest
    then show ?thesis
      using c assms
      by (auto simp: handleInput_def Let_def cursor_in_line_def length_js_slice_0
          length_js_slice_from str_le_nonempty)
  qed
qed

lemma handleInput_fold_cursor:
  "cursor_in_line (fst st) \<Longrightarrow>
     cursor_in_line (fst (foldl (\<lambda>st d. handleInput run d st) st events))"
  by (induction events arbitrary: st) (simp_all add: handleInput_cursor)

text \<open>
  Claim C10. After any sequence of inputs from the initial state the cursor is between 0
  and the length of the line, and every single input keeps it there: this holds for the
  keys the editor knows and for any other input. Left at cursor 0 and right at the end of
  the line change nothing at all, on the editor or on the terminal.
\<close>

theorem cursor_stays_in_line:
  "cursor_in_line (fst (foldl (\<lambda>st d. handleInput run d st) (initial_editor, sh) events))
   \<and> (cursor_in_line ed \<longrightarrow> cursor_in_line (fst (handleInput run data (ed, sh))))
   \<and> (cursorPosition ed = 0 \<longrightarrow> handleInput run key_left (ed, sh) = (ed, sh))
   \<and> (cursorPosition ed = int (length (currentLine ed)) \<longrightarrow>
        handleInput run key_right (ed, sh) = (ed, sh))"
proof -
  have "cursor_in_line (fst (initial_editor, sh))"
    by (simp add: initial_editor_def cursor_in_line_def)
  then have a: "cursor_in_line (fst (foldl (\<lambda>st d. handleInput run d st) (initial_editor, sh) events))"
    by (rule handleInput_fold_cursor)
  have b: "cursor_in_line ed \<longrightarrow> cursor_in_line (fst (handleInput run data (ed, sh)))"
    using handleInput_cursor [of "(ed, sh)" run data] by simp
  have c: "cursorPosition ed = 0 \<longrightarrow> handleInput run key_left (ed, sh) = (ed, sh)"
    by (simp add: handleInput_def Let_def key_defs)
  have d: "cursorPosition ed = int (length (currentLine ed)) \<longrightarrow>
        handleInput run key_right (ed, sh) = (ed, sh)"
    by (simp add: handleInput_def Let_def key_defs)
  show ?thesis using a b c d by blast
qed

theorem cursor_stays_in_line_witness:
  "cursor_in_line (fst (foldl (\<lambda>st d. handleInput demo_run d st) (initial_editor, demo_shell)
      [''a'', ''b'', ''c'', key_left, key_left, ''X'']))
   \<and> fst (foldl (\<lambda>st d. handleInput demo_run d st) (initial_editor, demo_shell)
      [''a'', ''b'', ''c'', key_left, key_left, ''X''])
     = \<lparr>currentLine = ''aXbc'', cursorPosition = 2, commandHistory = [], historyIndex = - 1\<rparr>
   \<and> cursor_in_line initial_editor
   \<and> cursor_in_line (fst (handleInput demo_run key_left (initial_editor, demo_shell)))
   \<and> cursorPosition initial_editor = 0
   \<and> handleInput demo_run key_left (initial_editor, demo_shell) = (initial_editor, demo_shell)
   \<and> cursorPosition initial_editor = int (length (currentLine initial_editor))
   \<and> handleInput demo_run key_right (initial_editor, demo_shell) = (initial_editor, demo_shell)"
proof -
  have e: "fst (foldl (\<lambda>st d. handleInput demo_run d st) (initial_editor, demo_shell)
      [''a'', ''b'', ''c'', key_left, key_left, ''X''])
     = \<lparr>currentLine = ''aXbc'', cursorPosition = 2, commandHistory = [], historyIndex = - 1\<rparr>"
    by code_simp
  have i: "cursor_in_line initial_editor" "cursorPosition initial_editor = 0"
    "cursorPosition initial_editor = int (length (currentLine initial_editor))"
    by (simp_all add: initial_editor_def cursor_in_line_def)
  show ?thesis
    using e i
      cursor_stays_in_line [of demo_run demo_shell "[''a'', ''b'', ''c'', key_left, key_left, ''X'']"
        initial_editor key_left]
    by simp
qed

section \<open>Properties of the pipeline executor\<close>


lemma run_stages_empty_prefix:
  "run_stages run [] i stdin sh = (Completed s, cs, shk) \<Longrightarrow> s = stdin \<and> cs = [] \<and> shk = sh"
  by simp





section \<open>Properties of head and tail\<close>

lemma COMMAND_ALIASES_head_tail_grep:
  "COMMAND_ALIASES ''head'' = None" "COMMAND_ALIASES ''tail'' = None"
  "COMMAND_ALIASES ''grep'' = None"
  by (simp_all add: COMMAND_ALIASES_def)

lemma runCommand_head:
  "runCommand ops mk other ''head'' as stdin sh = cmdHead ops (arg_at as 0) (lines_arg as) stdin sh"
  by (simp add: runCommand_def COMMAND_ALIASES_head_tail_grep)

lemma runCommand_tail:
  "runCommand ops mk other ''tail'' as stdin sh = cmdTail ops (arg_at as 0) (lines_arg as) stdin sh"
  by (simp add: runCommand_def COMMAND_ALIASES_head_tail_grep)

lemma runCommand_grep:
  "runCommand ops mk other ''grep'' as stdin sh =
     cmdGrep ops mk (arg_at as 0) (arg_at as 1) stdin sh"
  by (simp add: runCommand_def COMMAND_ALIASES_head_tail_grep)

lemma take_min_length: "take (min k (length xs)) xs = take k xs"
  by (cases "k \<le> length xs") (simp_all add: min_def)

lemma head_of_10: "head_of content 10 = join [newline] (take 10 (split_char newline content))"
  by (simp add: head_of_def js_slice_def clamp_index_def Let_def take_min_length)

lemma tail_of_10:
  "tail_of content 10 =
     join [newline] (drop (length (split_char newline content) - 10) (split_char newline content))"
proof -
  have "nat (max (int (length (split_char newline content)) - 10) 0) =
        length (split_char newline content) - 10"
    by arith
  then show ?thesis
    by (simp add: tail_of_def js_slice_from_def clamp_index_def)
qed

lemma parseInt_default: "parseInt ''10'' = Some 10"
  by code_simp

lemma lines_arg_cases:
  "lines_arg (p # rest) =
     (if rest = [] \<or> hd rest = [] then 10
      else case parseInt (hd rest) of None \<Rightarrow> 10 | Some n \<Rightarrow> if n = 0 then 10 else n)"
  by (cases rest) (simp_all add: lines_arg_def arg_at_def given_def parseInt_default)

text \<open>
  Claim C6, as stated: a supplied count that is not positive falls back to 10. A negative
  count does not: \<^verbatim>\<open>head f.txt -2\<close> on a file of three lines prints the first line only
  and \<^verbatim>\<open>tail f.txt -2\<close> the last one, where the default prints all three.
\<close>

theorem head_negative_count_counterexample:
  "lines_arg [''f.txt'', ''-2''] = - 2
   \<and> fst (demo_run ''head'' [''f.txt'', ''-2''] None demo_shell) = Inr (ok ''ab'')
   \<and> fst (demo_run ''head'' [''f.txt''] None demo_shell) =
       Inr (ok (''ab'' @ [newline] @ ''ab'' @ [newline] @ ''xB''))
   \<and> fst (demo_run ''tail'' [''f.txt'', ''-2''] None demo_shell) = Inr (ok ''xB'')
   \<and> fst (demo_run ''tail'' [''f.txt''] None demo_shell) =
       Inr (ok (''ab'' @ [newline] @ ''ab'' @ [newline] @ ''xB''))"
  by code_simp

text \<open>
  Claim C6, amended. For head and tail on a file (no piped input) the count is 10 when no
  count is supplied and when the supplied count is zero or does not start with a number;
  any other supplied count, a negative one too, is used as it is. With the count 10 the
  output is the first, or the last, ten lines. With piped input the first argument is the
  count whenever it reads as a number, and the count above otherwise.
\<close>

theorem head_tail_line_count:
  assumes "p \<noteq> []"
    and "readFile ops (resolvePath (currentDirectory sh) p) (store sh) = (Inr content, fs')"
  shows "runCommand ops mk other ''head'' (p # rest) None sh =
           (Inr (ok (head_of content (lines_arg (p # rest)))), sh\<lparr>store := fs'\<rparr>)
       \<and> runCommand ops mk other ''tail'' (p # rest) None sh =
           (Inr (ok (tail_of content (lines_arg (p # rest)))), sh\<lparr>store := fs'\<rparr>)
       \<and> lines_arg (p # rest) =
           (if rest = [] \<or> hd rest = [] then 10
            else case parseInt (hd rest) of None \<Rightarrow> 10 | Some n \<Rightarrow> if n = 0 then 10 else n)
       \<and> head_of content 10 = join [newline] (take 10 (split_char newline content))
       \<and> tail_of content 10 =
           join [newline]
             (drop (length (split_char newline content) - 10) (split_char newline content))
       \<and> runCommand ops mk other ''head'' as (Some piped) sh =
           (Inr (ok (head_of piped (piped_count (arg_at as 0) (lines_arg as)))), sh)
       \<and> runCommand ops mk other ''tail'' as (Some piped) sh =
           (Inr (ok (tail_of piped (piped_count (arg_at as 0) (lines_arg as)))), sh)"
proof -
  have g: "given (arg_at (p # rest) 0)" "the (arg_at (p # rest) 0) = p"
    using assms(1) by (simp_all add: given_def arg_at_def)
  have r: "read_resolved ops p sh = (Inr content, sh\<lparr>store := fs'\<rparr>)"
    using assms(2) by (simp add: read_resolved_def)
  have h: "runCommand ops mk other ''head'' (p # rest) None sh =
           (Inr (ok (head_of content (lines_arg (p # rest)))), sh\<lparr>store := fs'\<rparr>)"
    using g r by (simp add: runCommand_head cmdHead_def)
  have t: "runCommand ops mk other ''tail'' (p # rest) None sh =
           (Inr (ok (tail_of content (lines_arg (p # rest)))), sh\<lparr>store := fs'\<rparr>)"
    using g r by (simp add: runCommand_tail cmdTail_def)
  have ph: "runCommand ops mk other ''head'' as (Some piped) sh =
           (Inr (ok (head_of piped (piped_count (arg_at as 0) (lines_arg as)))), sh)"
    by (simp add: runCommand_head cmdHead_def)
  have pt: "runCommand ops mk other ''tail'' as (Some piped) sh =
           (Inr (ok (tail_of piped (piped_count (arg_at as 0) (lines_arg as)))), sh)"
    by (simp add: runCommand_tail cmdTail_def)
  show ?thesis
    using h t ph pt lines_arg_cases [of p rest] head_of_10 [of content] tail_of_10 [of content]
    by blast
qed

theorem head_tail_line_count_witness:
  "''f.txt'' \<noteq> []
   \<and> readFile simple_ops (resolvePath (currentDirectory demo_shell) ''f.txt'') (store demo_shell) =
       (Inr (''ab'' @ [newline] @ ''ab'' @ [newline] @ ''xB''), store demo_shell)
   \<and> lines_arg [''f.txt'', ''0''] = 10 \<and> lines_arg [''f.txt'', ''two''] = 10
   \<and> lines_arg [''f.txt''] = 10 \<and> lines_arg [''f.txt'', ''2''] = 2
   \<and> lines_arg [''f.txt'', ''-2''] = - 2
   \<and> demo_run ''head'' [''f.txt'', ''2''] None demo_shell =
       (Inr (ok (''ab'' @ [newline] @ ''ab'')), demo_shell)
   \<and> demo_run ''tail'' [''f.txt'', ''2''] None demo_shell =
       (Inr (ok (''ab'' @ [newline] @ ''xB'')), demo_shell)
   \<and> demo_run ''head'' [''0''] (Some (''ab'' @ [newline] @ ''ab'' @ [newline] @ ''xB'')) demo_shell =
       (Inr (ok []), demo_shell)"
proof -
  let ?text = "''ab'' @ [newline] @ ''ab'' @ [newline] @ ''xB''"
  have h1: "''f.txt'' \<noteq> []" by simp
  have h2: "readFile simple_ops (resolvePath (currentDirectory demo_shell) ''f.txt'')
       (store demo_shell) = (Inr ?text, store demo_shell)"
    by code_simp
  have l: "lines_arg [''f.txt'', ''0''] = 10" "lines_arg [''f.txt'', ''two''] = 10"
    "lines_arg [''f.txt''] = 10" "lines_arg [''f.txt'', ''2''] = 2"
    "lines_arg [''f.txt'', ''-2''] = - 2"
    by code_simp+
  have o: "head_of ?text 2 = ''ab'' @ [newline] @ ''ab''"
    "tail_of ?text 2 = ''ab'' @ [newline] @ ''xB''"
    by code_simp+
  have s: "demo_shell\<lparr>store := store demo_shell\<rparr> = demo_shell" by simp
  have z: "head_of ?text (piped_count (arg_at [''0''] 0) (lines_arg [''0''])) = []"
    by code_simp
  show ?thesis
    using h1 h2 l o s z
      head_tail_line_count [OF h1 h2, of literal_RegExp demo_other "[''2'']" "[''0'']" ?text]
    by (simp add: demo_run_def)
qed

section \<open>Properties of grep\<close>

lemma regex_test_sound:
  assumes "fst (regex_test m s lastIndex)"
  shows "has_match m s"
proof -
  from assms obtain i e where "fst (regex_exec m s lastIndex) = Some (i, e)"
    by (cases "regex_exec m s lastIndex") (auto simp: regex_test_def)
  from regex_exec_bounds [OF this] show ?thesis
    unfolding has_match_def by blast
qed

lemma filter_test_sound:
  "subseq (filter_test m line_of xs lastIndex) xs
   \<and> (\<forall>x \<in> set (filter_test m line_of xs lastIndex). has_match m (line_of x))"
proof (induction xs arbitrary: lastIndex)
  case Nil
  then show ?case by simp
next
  case (Cons x xs)
  show ?case
  proof (cases "fst (regex_test m (line_of x) lastIndex)")
    case True
    then show ?thesis
      using Cons.IH [of "snd (regex_test m (line_of x) lastIndex)"] regex_test_sound [OF True]
      by simp
  next
    case False
    then show ?thesis
      using Cons.IH [of "snd (regex_test m (line_of x) lastIndex)"]
      by (simp add: list_emb_Cons)
  qed
qed

lemma grep_output_join:
  "grep_output m content =
     join [newline] (map (highlight m) (filter_test m id (split_char newline content) 0))"
  by (simp add: grep_output_def Let_def)


lemma enumerate_numbers:
  "x \<in> set (enumerate n xs) \<Longrightarrow> n \<le> fst x \<and> fst x < n + length xs \<and> snd x = xs ! (fst x - n)"
  by (cases x) (auto simp: in_set_enumerate_eq)

text \<open>
  Claim C5, as stated: without piped input the handler prints the line number before each
  matching line. The handler of the terminal with pipes prints no number in either mode:
  for the file of the example session the third line matches \<^verbatim>\<open>x\<close>, and the output is
  that line with its match highlighted, with no \<^verbatim>\<open>3:\<close> in it.
\<close>

theorem grep_direct_mode_unnumbered_counterexample:
  "fst (demo_run ''grep'' [''x'', ''f.txt''] None demo_shell) =
     Inr (ok ([escc] @ ''[1;31mx'' @ [escc] @ ''[0mB''))
   \<and> \<not> str_includes ([escc] @ ''[1;31mx'' @ [escc] @ ''[0mB'') ''3:''"
  by code_simp

text \<open>
  Claim C5, amended. The pattern is compiled with the flags \<^verbatim>\<open>gi\<close>, so matching ignores
  case. The handler of the terminal with pipes gives the same output for a text that is
  piped in and for the same text read from the file: one line for each line it selects,
  in the order of the input, highlighted, without a number; every selected line has a
  match. The handler of the terminal without pipes prints each selected line after its
  number, counted from 1, and a colon, and prints "(no matches)" when it selects none.
\<close>

theorem grep_output_lines:
  assumes "given pattern" and "mk (the pattern) ''gi'' = Inr m"
  shows "cmdGrep ops mk pattern path (Some content) sh = (Inr (ok (grep_output m content)), sh)
       \<and> (given path \<longrightarrow>
            readFile ops (resolvePath (currentDirectory sh) (the path)) (store sh) = (Inr content, fs')
            \<longrightarrow> cmdGrep ops mk pattern path None sh =
                  (Inr (ok (grep_output m content)), sh\<lparr>store := fs'\<rparr>)
                \<and> cmdGrep_unpiped ops mk pattern path sh =
                  (Inr (ok (grep_output_numbered m content)), sh\<lparr>store := fs'\<rparr>))
       \<and> (\<exists>sel. subseq sel (split_char newline content)
              \<and> (\<forall>l \<in> set sel. has_match m l)
              \<and> grep_output m content = join [newline] (map (highlight m) sel))
       \<and> (\<exists>sel. subseq sel (enumerate 1 (split_char newline content))
              \<and> (\<forall>x \<in> set sel. has_match m (snd x)
                     \<and> 1 \<le> fst x \<and> snd x = split_char newline content ! (fst x - 1))
              \<and> grep_output_numbered m content =
                  (if sel = [] then [escc] @ ''[2m(no matches)'' @ [escc] @ ''[0m''
                   else join [newline]
                          (map (numbered_line m) sel)))
       \<and> numbered_line m (n, l) =
           [escc] @ ''[1;33m'' @ digits_of n @ '':'' @ [escc] @ ''[0m '' @ highlight m l"
proof -
  let ?lines = "split_char newline content"
  have a: "cmdGrep ops mk pattern path (Some content) sh = (Inr (ok (grep_output m content)), sh)"
    using assms by (simp add: cmdGrep_def grep_result_def)
  have b: "given path \<longrightarrow>
            readFile ops (resolvePath (currentDirectory sh) (the path)) (store sh) = (Inr content, fs')
            \<longrightarrow> cmdGrep ops mk pattern path None sh =
                  (Inr (ok (grep_output m content)), sh\<lparr>store := fs'\<rparr>)
                \<and> cmdGrep_unpiped ops mk pattern path sh =
                  (Inr (ok (grep_output_numbered m content)), sh\<lparr>store := fs'\<rparr>)"
    using assms by (simp add: cmdGrep_def grep_result_def cmdGrep_unpiped_def read_resolved_def)
  let ?sel = "filter_test m id ?lines 0"
  have "subseq ?sel ?lines \<and> (\<forall>l \<in> set ?sel. has_match m l)"
    using filter_test_sound [of m id ?lines 0] by simp
  then have c: "\<exists>sel. subseq sel ?lines \<and> (\<forall>l \<in> set sel. has_match m l)
              \<and> grep_output m content = join [newline] (map (highlight m) sel)"
    using grep_output_join [of m content] by blast
  let ?nsel = "filter_test m snd (enumerate 1 ?lines) 0"
  have n1: "subseq ?nsel (enumerate 1 ?lines)" and n2: "\<forall>x \<in> set ?nsel. has_match m (snd x)"
    using filter_test_sound [of m snd "enumerate 1 ?lines" 0] by simp_all
  have n3: "\<forall>x \<in> set ?nsel. 1 \<le> fst x \<and> snd x = ?lines ! (fst x - 1)"
  proof
    fix x assume "x \<in> set ?nsel"
    then have "x \<in> set (enumerate 1 ?lines)"
      using n1 list_emb_set [of "(=)" ?nsel "enumerate 1 ?lines" x] by auto
    from enumerate_numbers [OF this] show "1 \<le> fst x \<and> snd x = ?lines ! (fst x - 1)" by simp
  qed
  have n4: "grep_output_numbered m content =
                  (if ?nsel = [] then [escc] @ ''[2m(no matches)'' @ [escc] @ ''[0m''
                   else join [newline]
                          (map (numbered_line m) ?nsel))"
    by (simp add: grep_output_numbered_def Let_def)
  have d: "\<exists>sel. subseq sel (enumerate 1 ?lines)
              \<and> (\<forall>x \<in> set sel. has_match m (snd x)
                     \<and> 1 \<le> fst x \<and> snd x = ?lines ! (fst x - 1))
              \<and> grep_output_numbered m content =
                  (if sel = [] then [escc] @ ''[2m(no matches)'' @ [escc] @ ''[0m''
                   else join [newline]
                          (map (numbered_line m) sel))"
    using n1 n2 n3 n4 by blast
  have e: "numbered_line m (n, l) =
           [escc] @ ''[1;33m'' @ digits_of n @ '':'' @ [escc] @ ''[0m '' @ highlight m l"
    by (simp add: numbered_line_def)
  show ?thesis using a b c d e by blast
qed


theorem grep_output_lines_witness:
  "given (Some ''K'')
   \<and> literal_RegExp (the (Some ''K'')) ''gi'' = Inr (literal_matcher True ''K'')
   \<and> given (Some ''keep.txt'')
   \<and> readFile simple_ops (resolvePath (currentDirectory demo_shell) (the (Some ''keep.txt'')))
         (store demo_shell) = (Inr ''k'', store demo_shell)
   \<and> cmdGrep simple_ops literal_RegExp (Some ''K'') None (Some ''k'') demo_shell =
       (Inr (ok ([escc] @ ''[1;31mk'' @ [escc] @ ''[0m'')), demo_shell)
   \<and> cmdGrep simple_ops literal_RegExp (Some ''K'') (Some ''keep.txt'') None demo_shell =
       (Inr (ok ([escc] @ ''[1;31mk'' @ [escc] @ ''[0m'')), demo_shell)
   \<and> cmdGrep_unpiped simple_ops literal_RegExp (Some ''K'') (Some ''keep.txt'') demo_shell =
       (Inr (ok ([escc] @ ''[1;33m1:'' @ [escc] @ ''[0m '' @ [escc] @ ''[1;31mk'' @ [escc] @ ''[0m'')),
        demo_shell)"
proof -
  let ?m = "literal_matcher True ''K''"
  have h1: "given (Some ''K'')" by (simp add: given_def)
  have h2: "literal_RegExp (the (Some ''K'')) ''gi'' = Inr ?m"
    by (simp add: literal_RegExp_def)
  have h3: "given (Some ''keep.txt'')" by (simp add: given_def)
  have h4: "readFile simple_ops (resolvePath (currentDirectory demo_shell) (the (Some ''keep.txt'')))
         (store demo_shell) = (Inr ''k'', store demo_shell)"
    by code_simp
  have o1: "grep_output ?m ''k'' = [escc] @ ''[1;31mk'' @ [escc] @ ''[0m''"
    by code_simp
  have o2: "grep_output_numbered ?m ''k'' =
      [escc] @ ''[1;33m1:'' @ [escc] @ ''[0m '' @ [escc] @ ''[1;31mk'' @ [escc] @ ''[0m''"
    by code_simp
  have s: "demo_shell\<lparr>store := store demo_shell\<rparr> = demo_shell" by simp
  show ?thesis
    using h1 h2 h3 h4 o1 o2 s
      grep_output_lines [where pattern = "Some ''K''" and mk = literal_RegExp and m = ?m
        and ops = simple_ops and path = "Some ''keep.txt''" and content = "''k''"
        and sh = demo_shell and fs' = "store demo_shell" and n = 1 and l = "''k''", OF h1 h2]
      grep_output_lines [where pattern = "Some ''K''" and mk = literal_RegExp and m = ?m
        and ops = simple_ops and path = None and content = "''k''"
        and sh = demo_shell and fs' = "store demo_shell" and n = 1 and l = "''k''", OF h1 h2]
    by simp
qed


end
